theory Spec2Isabelle
  imports Complex_Main "HOL-Library.Multiset" "HOL-Library.AList"
begin

section \<open>Python values and errors\<close>

text \<open>
  The exceptions that \<^verbatim>\<open>src/data.py\<close> can let escape. The module has no
  \<^verbatim>\<open>raise\<close> and no \<^verbatim>\<open>try\<close> of its own: every error comes out of a library call
  and propagates to the caller unchanged.
  \<^item> \<open>ValueError\<close>, \<open>OverflowError\<close>, \<open>TypeError\<close>, \<open>FileNotFoundError\<close>: the Python
    built-ins of these names;
  \<^item> \<open>DatetimeRange\<close>: \<^verbatim>\<open>datetime.fromtimestamp\<close> refusing an instant outside the
    years 1 to 9999 (a \<^verbatim>\<open>ValueError\<close> or an \<^verbatim>\<open>OverflowError\<close>, depending on the
    magnitude);
  \<^item> \<open>OutOfBoundsDatetime\<close>: \<^verbatim>\<open>pandas.to_datetime\<close> refusing an instant that does
    not fit 64-bit nanoseconds;
  \<^item> \<open>AdapterError\<close>: whatever the exchange client raises from \<^verbatim>\<open>fetch_ohlcv\<close>.
\<close>

datatype py_error =
    ValueError
  | OverflowError
  | TypeError
  | FileNotFoundError
  | DatetimeRange
  | OutOfBoundsDatetime
  | AdapterError string

section \<open>Timeframe policy: \<^verbatim>\<open>_near_now_delta\<close>\<close>

text \<open>
  A Python \<^verbatim>\<open>str\<close> is the list of its code points; \<open>py_str\<close> gives the code points of a
  literal. Of the character database of the interpreter the part beyond ASCII is a
  parameter, as it grows with the interpreter:
  \<^item> \<open>decimal_beyond c\<close> is the value of a character of numeric type Decimal, a digit of
    some script, which \<^verbatim>\<open>int\<close> reads as the ASCII digit of that value;
  \<^item> \<open>digit_beyond c\<close> holds of a character of numeric type Digit, such as a
    superscript two, which \<^verbatim>\<open>str.isdigit\<close> accepts and \<^verbatim>\<open>int\<close> does not.
  In ASCII the ten digits are the decimal characters and there is no other digit.
\<close>

type_synonym pystr = "int list"

definition py_str :: "string \<Rightarrow> pystr" where
  "py_str s = map of_char s"

record chardb =
  decimal_beyond :: "int \<Rightarrow> nat option"
  digit_beyond :: "int \<Rightarrow> bool"

definition todecimal :: "chardb \<Rightarrow> int \<Rightarrow> nat option" where
  "todecimal db c =
     (if c < 128 then (if 48 \<le> c \<and> c \<le> 57 then Some (nat (c - 48)) else None)
      else decimal_beyond db c)"

definition is_decimal_chr :: "chardb \<Rightarrow> int \<Rightarrow> bool" where
  "is_decimal_chr db c = (todecimal db c \<noteq> None)"

definition isdigit_chr :: "chardb \<Rightarrow> int \<Rightarrow> bool" where
  "isdigit_chr db c = (is_decimal_chr db c \<or> (128 \<le> c \<and> digit_beyond db c))"

definition isdigit :: "chardb \<Rightarrow> pystr \<Rightarrow> bool" where
  "isdigit db s = (s \<noteq> [] \<and> list_all (isdigit_chr db) s)"

definition endswith_chr :: "pystr \<Rightarrow> char \<Rightarrow> bool" where
  "endswith_chr s c = (s \<noteq> [] \<and> last s = of_char c)"

text \<open>\<^verbatim>\<open>s[:-1]\<close>: all but the last character, the empty string for the empty string.\<close>

definition drop_last :: "pystr \<Rightarrow> pystr" where
  "drop_last s = butlast s"

definition decimal_of :: "chardb \<Rightarrow> int \<Rightarrow> int" where
  "decimal_of db c = (case todecimal db c of None \<Rightarrow> 0 | Some d \<Rightarrow> int d)"

definition digits_value :: "chardb \<Rightarrow> pystr \<Rightarrow> int" where
  "digits_value db s = foldl (\<lambda>a c. 10 * a + decimal_of db c) 0 s"

definition int_max_str_digits :: int where
  "int_max_str_digits = 4300"

text \<open>
  \<^verbatim>\<open>int(s)\<close> on the arguments it receives here, strings for which \<^verbatim>\<open>isdigit\<close>
  holds (no sign, no blank, no underscore): a \<^verbatim>\<open>ValueError\<close> for a character that is
  not a decimal digit and for more digits than the interpreter's limit of 4300, the
  decimal value otherwise.
\<close>

definition py_int :: "chardb \<Rightarrow> pystr \<Rightarrow> py_error + int" where
  "py_int db s =
     (if s = [] \<or> \<not> list_all (is_decimal_chr db) s then Inl ValueError
      else if int (length s) > int_max_str_digits then Inl ValueError
      else Inr (digits_value db s))"

text \<open>
  A \<^verbatim>\<open>timedelta\<close> is its length in microseconds. The constructor raises
  \<^verbatim>\<open>OverflowError\<close> when the normalised number of days leaves
  \<open>[-999999999, 999999999]\<close>.
\<close>

definition hour_us :: int where
  "hour_us = 3600000000"

definition day_us :: int where
  "day_us = 86400000000"

definition max_delta_days :: int where
  "max_delta_days = 999999999"

definition timedelta_us :: "int \<Rightarrow> py_error + int" where
  "timedelta_us us =
     (if - max_delta_days \<le> us div day_us \<and> us div day_us \<le> max_delta_days
      then Inr us else Inl OverflowError)"

definition timedelta_hours :: "int \<Rightarrow> py_error + int" where
  "timedelta_hours h = timedelta_us (h * hour_us)"

definition timedelta_days :: "int \<Rightarrow> py_error + int" where
  "timedelta_days d = timedelta_us (d * day_us)"

definition near_now_delta :: "chardb \<Rightarrow> pystr \<Rightarrow> py_error + int" where
  "near_now_delta db timeframe =
     (if timeframe = py_str ''1h'' then timedelta_hours 2
      else if timeframe = py_str ''1d'' then timedelta_days 1
      else if endswith_chr timeframe CHR ''h'' \<and> isdigit db (drop_last timeframe) then
        (case py_int db (drop_last timeframe) of
           Inl e \<Rightarrow> Inl e
         | Inr hours \<Rightarrow> timedelta_hours (max 2 (hours * 2)))
      else if endswith_chr timeframe CHR ''d'' \<and> isdigit db (drop_last timeframe) then
        (case py_int db (drop_last timeframe) of
           Inl e \<Rightarrow> Inl e
         | Inr days \<Rightarrow> timedelta_days (max 1 days))
      else timedelta_hours 2)"

text \<open>A label made of \<^verbatim>\<open>isdigit\<close> characters followed by \<open>h\<close> or \<open>d\<close>.\<close>

definition digit_label :: "chardb \<Rightarrow> pystr \<Rightarrow> bool" where
  "digit_label db s =
     ((endswith_chr s CHR ''h'' \<or> endswith_chr s CHR ''d'') \<and> isdigit db (drop_last s))"

text \<open>
  A non-empty string of decimal digits, of whatever scripts, short enough for
  \<^verbatim>\<open>int\<close>: the numerals \<open><N>\<close> of the labels \<open><N>h\<close> and \<open><N>d\<close>.
\<close>

definition decimal_numeral :: "chardb \<Rightarrow> pystr \<Rightarrow> bool" where
  "decimal_numeral db ds =
     (ds \<noteq> [] \<and> list_all (is_decimal_chr db) ds \<and> int (length ds) \<le> int_max_str_digits)"

subsection \<open>The character database of Unicode 14.0\<close>

text \<open>
  The database of CPython 3.11, for the examples. Beyond ASCII the decimal characters
  come in the runs of \<open>decimal_runs\<close>, each given by its first code point and its length;
  within a run the value of a character is its offset modulo 10. The characters of
  numeric type Digit are those of \<open>digit_runs\<close>.
\<close>

definition decimal_runs :: "(int \<times> int) list" where
  "decimal_runs =
     [(1632, 10), (1776, 10), (1984, 10), (2406, 10), (2534, 10), (2662, 10), (2790, 10),
      (2918, 10), (3046, 10), (3174, 10), (3302, 10), (3430, 10), (3558, 10), (3664, 10),
      (3792, 10), (3872, 10), (4160, 10), (4240, 10), (6112, 10), (6160, 10), (6470, 10),
      (6608, 10), (6784, 10), (6800, 10), (6992, 10), (7088, 10), (7232, 10), (7248, 10),
      (42528, 10), (43216, 10), (43264, 10), (43472, 10), (43504, 10), (43600, 10),
      (44016, 10), (65296, 10), (66720, 10), (68912, 10), (69734, 10), (69872, 10),
      (69942, 10), (70096, 10), (70384, 10), (70736, 10), (70864, 10), (71248, 10),
      (71360, 10), (71472, 10), (71904, 10), (72016, 10), (72784, 10), (73040, 10),
      (73120, 10), (92768, 10), (92864, 10), (93008, 10), (120782, 50), (123200, 10),
      (123632, 10), (125264, 10), (130032, 10)]"

definition digit_runs :: "(int \<times> int) list" where
  "digit_runs =
     [(178, 2), (185, 1), (4969, 9), (6618, 1), (8304, 1), (8308, 6), (8320, 10),
      (9312, 9), (9332, 9), (9352, 9), (9450, 1), (9461, 9), (9471, 1), (10102, 9),
      (10112, 9), (10122, 9), (68160, 4), (69216, 9), (69714, 9), (127232, 11)]"

definition in_run :: "int \<Rightarrow> int \<times> int \<Rightarrow> bool" where
  "in_run c r = (fst r \<le> c \<and> c < fst r + snd r)"

definition unicode14 :: chardb where
  "unicode14 =
     \<lparr>decimal_beyond =
        (\<lambda>c. case List.find (in_run c) decimal_runs of
               None \<Rightarrow> None
             | Some r \<Rightarrow> Some (nat ((c - fst r) mod 10))),
      digit_beyond = (\<lambda>c. list_ex (in_run c) digit_runs)\<rparr>"

section \<open>Row normalizer: \<^verbatim>\<open>_ohlcv_to_df\<close>\<close>

text \<open>
  A float, without its rounding: a rational when finite, else one of the two infinities
  or NaN. Python integers are the integral rationals.
\<close>

datatype fval = Fin rat | PosInf | NegInf | NaN

text \<open>
  One field of a raw row, by what pandas makes of the Python value:
  \<^item> \<open>Num v\<close>: a number, or in a price or volume field a string that spells one
    (\<^verbatim>\<open>pd.to_numeric\<close> reads \<^verbatim>\<open>"1.5"\<close> as it reads \<^verbatim>\<open>1.5\<close>);
  \<^item> \<open>Text\<close>: a string that spells no number, such as \<^verbatim>\<open>"abc"\<close>;
  \<^item> \<open>Null\<close>: \<^verbatim>\<open>None\<close>.
  A timestamp given as a string that spells a number, or as one of the spellings of
  \<^verbatim>\<open>NaT\<close>, is outside the model.
\<close>

datatype cell = Num fval | Text | Null

text \<open>CCXT OHLCV format: \<^verbatim>\<open>[ms, open, high, low, close, volume]\<close>.\<close>

record raw_row =
  timestamp_ms :: cell
  raw_open :: cell
  raw_high :: cell
  raw_low :: cell
  raw_close :: cell
  raw_volume :: cell

text \<open>
  A row of the returned frame. The timestamp is the instant in milliseconds since the
  epoch; rounding to nanoseconds is not modelled.
\<close>

record candle =
  timestamp :: rat
  c_open :: fval
  c_high :: fval
  c_low :: fval
  c_close :: fval
  c_volume :: fval

text \<open>
  \<^verbatim>\<open>pd.to_datetime(..., unit="ms", utc=True)\<close> on one value: NaN and \<^verbatim>\<open>None\<close> become
  \<^verbatim>\<open>NaT\<close> (here \<open>None\<close>); a number whose nanoseconds do not fit 64 bits, an infinity
  included, raises \<^verbatim>\<open>OutOfBoundsDatetime\<close>; a string that spells no number raises
  \<^verbatim>\<open>ValueError\<close>.
\<close>

definition ns_max :: rat where
  "ns_max = 9223372036854775807"

definition in_ns_bounds :: "rat \<Rightarrow> bool" where
  "in_ns_bounds q = (- ns_max \<le> q * 1000000 \<and> q * 1000000 \<le> ns_max)"

fun to_datetime :: "cell \<Rightarrow> py_error + rat option" where
  "to_datetime (Num (Fin q)) =
     (if in_ns_bounds q then Inr (Some q) else Inl OutOfBoundsDatetime)"
| "to_datetime (Num NaN) = Inr None"
| "to_datetime (Num PosInf) = Inl OutOfBoundsDatetime"
| "to_datetime (Num NegInf) = Inl OutOfBoundsDatetime"
| "to_datetime Text = Inl ValueError"
| "to_datetime Null = Inr None"

text \<open>The conversion of the whole column stops at the first value that raises.\<close>

fun to_datetime_col :: "cell list \<Rightarrow> py_error + rat option list" where
  "to_datetime_col [] = Inr []"
| "to_datetime_col (c # cs) =
     (case to_datetime c of
        Inl e \<Rightarrow> Inl e
      | Inr t \<Rightarrow> (case to_datetime_col cs of Inl e \<Rightarrow> Inl e | Inr ts \<Rightarrow> Inr (t # ts)))"

text \<open>\<^verbatim>\<open>pd.to_numeric(..., errors="coerce")\<close> on one value.\<close>

fun to_numeric :: "cell \<Rightarrow> fval" where
  "to_numeric (Num v) = v"
| "to_numeric Text = NaN"
| "to_numeric Null = NaN"

text \<open>
  \<^verbatim>\<open>dropna\<close> on one row, after the conversions: the row goes when its timestamp is
  \<^verbatim>\<open>NaT\<close> or one of its five numbers is NaN.
\<close>

definition dropna_row :: "rat option \<Rightarrow> raw_row \<Rightarrow> candle option" where
  "dropna_row t r =
     (case t of
        None \<Rightarrow> None
      | Some q \<Rightarrow>
          if to_numeric (raw_open r) = NaN \<or> to_numeric (raw_high r) = NaN
             \<or> to_numeric (raw_low r) = NaN \<or> to_numeric (raw_close r) = NaN
             \<or> to_numeric (raw_volume r) = NaN
          then None
          else Some \<lparr>timestamp = q,
                     c_open = to_numeric (raw_open r), c_high = to_numeric (raw_high r),
                     c_low = to_numeric (raw_low r), c_close = to_numeric (raw_close r),
                     c_volume = to_numeric (raw_volume r)\<rparr>)"

fun dropna :: "rat option list \<Rightarrow> raw_row list \<Rightarrow> candle list" where
  "dropna (t # ts) (r # rs) =
     (case dropna_row t r of None \<Rightarrow> dropna ts rs | Some c \<Rightarrow> c # dropna ts rs)"
| "dropna _ _ = []"

text \<open>
  \<^verbatim>\<open>drop_duplicates(subset=["timestamp"])\<close>, whose default is \<^verbatim>\<open>keep="first"\<close>: a row
  goes when an earlier row of the frame has its timestamp.
\<close>

fun drop_duplicates_from :: "rat list \<Rightarrow> candle list \<Rightarrow> candle list" where
  "drop_duplicates_from seen [] = []"
| "drop_duplicates_from seen (c # cs) =
     (if timestamp c \<in> set seen then drop_duplicates_from seen cs
      else c # drop_duplicates_from (timestamp c # seen) cs)"

definition drop_duplicates :: "candle list \<Rightarrow> candle list" where
  "drop_duplicates cs = drop_duplicates_from [] cs"

text \<open>
  \<^verbatim>\<open>df.sort_values("timestamp")\<close> is a library routine, called with its default
  \<^verbatim>\<open>kind="quicksort"\<close>; it is the parameter \<open>sort_values\<close> of the model. What pandas
  promises of it is that it returns the rows of its argument in ascending order of the
  key; it does not promise to keep rows of equal key in their order.
\<close>

definition ohlcv_to_df ::
  "(candle list \<Rightarrow> candle list) \<Rightarrow> raw_row list \<Rightarrow> py_error + candle list" where
  "ohlcv_to_df sort_values ohlcv =
     (case to_datetime_col (map timestamp_ms ohlcv) of
        Inl e \<Rightarrow> Inl e
      | Inr ts \<Rightarrow> Inr (drop_duplicates (sort_values (dropna ts ohlcv))))"

text \<open>The contract of \<open>sort_values\<close> at one argument.\<close>

definition sorts_by_timestamp :: "(candle list \<Rightarrow> candle list) \<Rightarrow> candle list \<Rightarrow> bool" where
  "sorts_by_timestamp sort_values cs =
     (mset (sort_values cs) = mset cs \<and> sorted (map timestamp (sort_values cs)))"

text \<open>
  The candle a raw row stands for: none when \<^verbatim>\<open>to_datetime\<close> raises on its timestamp
  or \<^verbatim>\<open>dropna\<close> removes it.
\<close>

definition candle_of :: "raw_row \<Rightarrow> candle option" where
  "candle_of r =
     (case to_datetime (timestamp_ms r) of Inl e \<Rightarrow> None | Inr t \<Rightarrow> dropna_row t r)"

fun valid_candles :: "raw_row list \<Rightarrow> candle list" where
  "valid_candles [] = []"
| "valid_candles (r # rs) =
     (case candle_of r of None \<Rightarrow> valid_candles rs | Some c \<Rightarrow> c # valid_candles rs)"

definition datetime_ok :: "raw_row \<Rightarrow> bool" where
  "datetime_ok r = (case to_datetime (timestamp_ms r) of Inl e \<Rightarrow> False | Inr t \<Rightarrow> True)"

definition no_nan :: "candle \<Rightarrow> bool" where
  "no_nan c =
     (c_open c \<noteq> NaN \<and> c_high c \<noteq> NaN \<and> c_low c \<noteq> NaN \<and> c_close c \<noteq> NaN
        \<and> c_volume c \<noteq> NaN)"

definition is_number :: "cell \<Rightarrow> bool" where
  "is_number c = (case c of Num v \<Rightarrow> v \<noteq> NaN | _ \<Rightarrow> False)"

text \<open>A raw row in which each of the six fields is a number other than NaN.\<close>

definition complete_row :: "raw_row \<Rightarrow> bool" where
  "complete_row r =
     (is_number (timestamp_ms r) \<and> is_number (raw_open r) \<and> is_number (raw_high r)
        \<and> is_number (raw_low r) \<and> is_number (raw_close r) \<and> is_number (raw_volume r))"

text \<open>The rows of a frame at one timestamp, and the first of them.\<close>

definition rows_at :: "rat \<Rightarrow> candle list \<Rightarrow> candle list" where
  "rows_at t cs = filter (\<lambda>c. timestamp c = t) cs"

definition first_at :: "rat \<Rightarrow> candle list \<Rightarrow> candle option" where
  "first_at t cs = List.find (\<lambda>c. timestamp c = t) cs"

definition one_or_none :: "candle option \<Rightarrow> candle list" where
  "one_or_none x = (case x of None \<Rightarrow> [] | Some c \<Rightarrow> [c])"

text \<open>
  A sort is stable at an argument when it returns what the stable insertion sort of the
  library returns: the rows in ascending order of timestamp, rows of equal timestamp in
  the order of the argument.
\<close>

definition stable_at :: "(candle list \<Rightarrow> candle list) \<Rightarrow> candle list \<Rightarrow> bool" where
  "stable_at sort_values cs = (sort_values cs = sort_key timestamp cs)"

definition finite_nonneg :: "fval \<Rightarrow> bool" where
  "finite_nonneg v = (case v of Fin q \<Rightarrow> 0 \<le> q | _ \<Rightarrow> False)"

subsection \<open>The sort that NumPy runs for \<^verbatim>\<open>kind="quicksort"\<close>\<close>

text \<open>
  pandas sorts one column by \<^verbatim>\<open>argsort\<close> of the key array and takes the rows in the
  order of the indices. For \<^verbatim>\<open>kind="quicksort"\<close> on a datetime array NumPy runs its
  \<^verbatim>\<open>aquicksort\<close>: an array of indices \<open>t\<close> into the keys \<open>v\<close> is permuted in place;
  a range longer than 17 is partitioned around the median of its first, middle and last
  key; a shorter one is sorted by insertion. The index variables \<^verbatim>\<open>pl\<close>, \<^verbatim>\<open>pr\<close>,
  \<^verbatim>\<open>pi\<close>, \<^verbatim>\<open>pj\<close> of the routine are positions in \<open>t\<close> here. The scans stop at the
  ends of the array, where the routine relies on the median step to stop them earlier.
  A range that is taken from the stack when the depth \<open>cdepth\<close> has gone below zero is
  handed to heapsort, which is not modelled: the result is \<open>None\<close> then, as it is when
  the fuel (one more than the length) is used up.
\<close>

definition swap :: "nat \<Rightarrow> nat \<Rightarrow> nat list \<Rightarrow> nat list" where
  "swap a b t = t[a := t ! b, b := t ! a]"

function scan_up :: "rat list \<Rightarrow> rat \<Rightarrow> nat list \<Rightarrow> nat \<Rightarrow> nat" where
  "scan_up v vp t i =
     (if i < length t \<and> v ! (t ! i) < vp then scan_up v vp t (Suc i) else i)"
  by pat_completeness auto
termination
  by (relation "measure (\<lambda>(v, vp, t, i). length t - i)") auto

fun scan_down :: "rat list \<Rightarrow> rat \<Rightarrow> nat list \<Rightarrow> nat \<Rightarrow> nat" where
  "scan_down v vp t 0 = 0"
| "scan_down v vp t (Suc j) =
     (if vp < v ! (t ! Suc j) then scan_down v vp t j else Suc j)"

lemma scan_up_ge: "i \<le> scan_up v vp t i"
  by (induction v vp t i rule: scan_up.induct) (metis Suc_leD scan_up.simps order_refl)

lemma scan_down_le: "scan_down v vp t j \<le> j"
  by (induction j) auto

function partition_loop :: "rat list \<Rightarrow> rat \<Rightarrow> nat list \<Rightarrow> nat \<Rightarrow> nat \<Rightarrow> nat list \<times> nat" where
  "partition_loop v vp t i j =
     (let i' = scan_up v vp t (Suc i); j' = scan_down v vp t (j - 1)
      in if i' \<ge> j' then (t, i') else partition_loop v vp (swap i' j' t) i' j')"
  by pat_completeness auto
termination
proof (relation "measure (\<lambda>(v, vp, t, i, j). j - i)", goal_cases)
  case 1
  show ?case by simp
next
  case (2 v vp t i j x xa)
  have "Suc i \<le> x" using 2(1) scan_up_ge by simp
  moreover have "xa \<le> j - 1" using 2(2) scan_down_le by simp
  ultimately show ?case using 2(3) by simp
qed

definition median3 :: "rat list \<Rightarrow> nat list \<Rightarrow> nat \<Rightarrow> nat \<Rightarrow> nat \<Rightarrow> nat list" where
  "median3 v t pl pm pr =
     (let t1 = (if v ! (t ! pm) < v ! (t ! pl) then swap pm pl t else t);
          t2 = (if v ! (t1 ! pr) < v ! (t1 ! pm) then swap pr pm t1 else t1)
      in if v ! (t2 ! pm) < v ! (t2 ! pl) then swap pm pl t2 else t2)"

definition partition_np :: "rat list \<Rightarrow> nat list \<Rightarrow> nat \<Rightarrow> nat \<Rightarrow> nat list \<times> nat" where
  "partition_np v t pl pr =
     (let pm = pl + (pr - pl) div 2;
          t1 = median3 v t pl pm pr;
          vp = v ! (t1 ! pm);
          t2 = swap pm (pr - 1) t1;
          (t3, i) = partition_loop v vp t2 pl (pr - 1)
      in (swap i (pr - 1) t3, i))"

fun shift_right :: "rat list \<Rightarrow> rat \<Rightarrow> nat \<Rightarrow> nat list \<Rightarrow> nat \<Rightarrow> nat list \<times> nat" where
  "shift_right v vp pl t 0 = (t, 0)"
| "shift_right v vp pl t (Suc k) =
     (if Suc k > pl \<and> vp < v ! (t ! k) then shift_right v vp pl (t[Suc k := t ! k]) k
      else (t, Suc k))"

definition insert_one :: "rat list \<Rightarrow> nat \<Rightarrow> nat list \<Rightarrow> nat \<Rightarrow> nat list" where
  "insert_one v pl t i =
     (let vi = t ! i; (t', j) = shift_right v (v ! vi) pl t i in t'[j := vi])"

definition insertion_sort :: "rat list \<Rightarrow> nat \<Rightarrow> nat \<Rightarrow> nat list \<Rightarrow> nat list" where
  "insertion_sort v pl pr t = foldl (insert_one v pl) t [Suc pl..<Suc pr]"

fun get_msb :: "nat \<Rightarrow> nat" where
  "get_msb n = (if n < 2 then 0 else Suc (get_msb (n div 2)))"

fun aquicksort_range ::
  "nat \<Rightarrow> int \<Rightarrow> rat list \<Rightarrow> nat \<Rightarrow> nat \<Rightarrow> nat list \<Rightarrow> nat list option" where
  "aquicksort_range 0 cdepth v pl pr t = None"
| "aquicksort_range (Suc fuel) cdepth v pl pr t =
     (if pr - pl > 16 then
        (case partition_np v t pl pr of (t', i) \<Rightarrow>
           if i - pl < pr - i then
             (case aquicksort_range fuel (cdepth - 1) v pl (i - 1) t' of
                None \<Rightarrow> None
              | Some t'' \<Rightarrow>
                  if cdepth - 1 < 0 then None
                  else aquicksort_range fuel (cdepth - 1) v (i + 1) pr t'')
           else
             (case aquicksort_range fuel (cdepth - 1) v (i + 1) pr t' of
                None \<Rightarrow> None
              | Some t'' \<Rightarrow>
                  if cdepth - 1 < 0 then None
                  else aquicksort_range fuel (cdepth - 1) v pl (i - 1) t''))
      else Some (insertion_sort v pl pr t))"

definition aquicksort :: "rat list \<Rightarrow> nat list option" where
  "aquicksort v =
     aquicksort_range (Suc (length v)) (2 * int (get_msb (length v))) v 0 (length v - 1)
       [0..<length v]"

text \<open>
  The rows in the order of the sorted indices. Where the model of the routine gives no
  result the frame is left as it is; the properties below assume of a sort only what it
  does at the frame in question.
\<close>

definition numpy_sort_values :: "candle list \<Rightarrow> candle list" where
  "numpy_sort_values cs =
     (case aquicksort (map timestamp cs) of None \<Rightarrow> cs | Some tosort \<Rightarrow> map ((!) cs) tosort)"

text \<open>Rows with round numbers, for the examples: a price \<open>p\<close> at the millisecond \<open>n\<close>.\<close>

definition bar :: "rat \<Rightarrow> rat \<Rightarrow> raw_row" where
  "bar n p =
     \<lparr>timestamp_ms = Num (Fin n), raw_open = Num (Fin p), raw_high = Num (Fin p),
      raw_low = Num (Fin p), raw_close = Num (Fin p), raw_volume = Num (Fin 1)\<rparr>"

definition bar_candle :: "rat \<Rightarrow> rat \<Rightarrow> candle" where
  "bar_candle n p =
     \<lparr>timestamp = n, c_open = Fin p, c_high = Fin p, c_low = Fin p, c_close = Fin p,
      c_volume = Fin 1\<rparr>"

text \<open>The rows \<open>bar n p\<close> for \<open>n\<close> from \<open>a\<close> up to \<open>b - 1\<close>.\<close>

definition page_of :: "rat \<Rightarrow> nat \<Rightarrow> nat \<Rightarrow> raw_row list" where
  "page_of p a b = map (\<lambda>n. bar (of_nat n) p) [a..<b]"

definition candles_of :: "rat \<Rightarrow> nat \<Rightarrow> nat \<Rightarrow> candle list" where
  "candles_of p a b = map (\<lambda>n. bar_candle (of_nat n) p) [a..<b]"

text \<open>
  Six raw rows: two at millisecond 2, two at millisecond 1 of which the first has a text
  for its open, one without a timestamp and one whose volume is NaN.
\<close>

definition mixed_rows :: "raw_row list" where
  "mixed_rows =
     [bar 2 5, (bar 1 6)\<lparr>raw_open := Text\<rparr>, bar 1 7, bar 2 9,
      (bar 3 8)\<lparr>timestamp_ms := Null\<rparr>, (bar 4 8)\<lparr>raw_volume := Num NaN\<rparr>]"

section \<open>Pagination engine and cache: \<^verbatim>\<open>fetch_ohlcv_full\<close>\<close>

text \<open>The constants of \<^verbatim>\<open>src/config.py\<close> that the module reads.\<close>

definition SYMBOL :: string where
  "SYMBOL = ''BTC/USD''"

definition YEARS_OF_HISTORY :: int where
  "YEARS_OF_HISTORY = 3"

definition FETCH_LIMIT :: int where
  "FETCH_LIMIT = 300"

definition SLEEP_SECONDS :: rat where
  "SLEEP_SECONDS = 1 / 5"

definition RAW_DATA_DIR :: string where
  "RAW_DATA_DIR = ''data/raw''"

text \<open>The arguments of \<^verbatim>\<open>fetch_ohlcv_full\<close>; \<^verbatim>\<open>debug\<close> only prints.\<close>

record args =
  timeframe :: pystr
  symbol :: string
  limit :: int
  sleep_seconds :: rat
  cache_path :: "string option"

text \<open>
  What the function does not own is a parameter of the model. The state \<open>'x\<close> of the
  outside (the exchange and the clock) is threaded through the calls in the order in
  which the code makes them:
  \<^item> \<open>fetch_ohlcv\<close>: \<^verbatim>\<open>exchange.fetch_ohlcv(symbol, timeframe=, since=, limit=)\<close>, a page
    of raw rows or an error;
  \<^item> \<open>utcnow\<close>: \<^verbatim>\<open>dt.datetime.now(dt.timezone.utc)\<close>, in microseconds since the epoch;
  \<^item> \<open>sleep\<close>: \<^verbatim>\<open>time.sleep(sleep_seconds)\<close>;
  \<^item> \<open>chars\<close>: the character database of the interpreter beyond ASCII;
  \<^item> \<open>pd_sort_values\<close>: \<^verbatim>\<open>DataFrame.sort_values("timestamp")\<close>;
  \<^item> \<open>pd_read_back\<close>: what \<^verbatim>\<open>pd.read_csv\<close> followed by \<^verbatim>\<open>pd.to_datetime\<close> of the
    timestamp column makes of the text that \<^verbatim>\<open>to_csv\<close> wrote for a frame: the frame
    read, or an error. How floats and instants are printed and parsed is not modelled.
\<close>

record 'x env =
  fetch_ohlcv :: "'x \<Rightarrow> string \<Rightarrow> pystr \<Rightarrow> rat \<Rightarrow> int \<Rightarrow> (py_error + raw_row list) \<times> 'x"
  utcnow :: "'x \<Rightarrow> int \<times> 'x"
  sleep :: "rat \<Rightarrow> 'x \<Rightarrow> 'x"
  chars :: chardb
  pd_sort_values :: "candle list \<Rightarrow> candle list"
  pd_read_back :: "candle list \<Rightarrow> py_error + candle list"

text \<open>
  The state of a run: the outside, the files (an association list from the paths that
  exist to the frames that were written to them) and, as a record of what the run did,
  the \<^verbatim>\<open>since\<close> of every page request made so far. Directories, permissions and other
  failures of the file system are not modelled.
\<close>

record 'x world =
  outside :: 'x
  files :: "(string \<times> candle list) list"
  requests :: "rat list"

text \<open>
  The instants a \<^verbatim>\<open>datetime\<close> holds, the years 1 to 9999, in microseconds since the
  epoch. Subtracting a \<^verbatim>\<open>timedelta\<close> raises \<^verbatim>\<open>OverflowError\<close> outside them.
\<close>

definition dt_min_us :: int where
  "dt_min_us = - 62135596800000000"

definition dt_max_us :: int where
  "dt_max_us = 253402300799999999"

definition dt_sub :: "int \<Rightarrow> int \<Rightarrow> py_error + int" where
  "dt_sub t delta =
     (if dt_min_us \<le> t - delta \<and> t - delta \<le> dt_max_us then Inr (t - delta)
      else Inl OverflowError)"

text \<open>
  \<^verbatim>\<open>dt.datetime.fromtimestamp(x / 1000, tz=dt.timezone.utc)\<close> for a timestamp field
  \<open>x\<close>: dividing \<^verbatim>\<open>None\<close> or a string raises \<^verbatim>\<open>TypeError\<close>, NaN raises
  \<^verbatim>\<open>ValueError\<close>, an infinity \<^verbatim>\<open>OverflowError\<close>, and a number outside the years 1 to
  9999 is refused. The result is kept in milliseconds; the rounding of the float
  division and of the microsecond is not modelled (there is none for an integral number of
  milliseconds of the present epoch).
\<close>

fun fromtimestamp_ms :: "cell \<Rightarrow> py_error + rat" where
  "fromtimestamp_ms (Num (Fin q)) =
     (if of_int dt_min_us \<le> q * 1000 \<and> q * 1000 \<le> of_int dt_max_us then Inr q
      else Inl DatetimeRange)"
| "fromtimestamp_ms (Num NaN) = Inl ValueError"
| "fromtimestamp_ms (Num PosInf) = Inl OverflowError"
| "fromtimestamp_ms (Num NegInf) = Inl OverflowError"
| "fromtimestamp_ms Text = Inl TypeError"
| "fromtimestamp_ms Null = Inl TypeError"

text \<open>\<^verbatim>\<open>int(x)\<close> of a quotient: towards zero.\<close>

definition trunc_div :: "int \<Rightarrow> int \<Rightarrow> int" where
  "trunc_div a b = (if 0 \<le> a then a div b else - ((- a) div b))"

text \<open>
  Lines 101 to 111: the start of the history, the first cursor, the cutoff of the
  timeframe, and the instant printed in the first message, which is computed whether or
  not \<^verbatim>\<open>debug\<close> is set.
\<close>

definition start_fetch :: "'x env \<Rightarrow> args \<Rightarrow> 'x world \<Rightarrow> (py_error + rat \<times> int) \<times> 'x world" where
  "start_fetch env a w =
     (case utcnow env (outside w) of
        (now, x1) \<Rightarrow>
          let w1 = w\<lparr>outside := x1\<rparr> in
          (case timedelta_days (365 * YEARS_OF_HISTORY) of
             Inl e \<Rightarrow> (Inl e, w1)
           | Inr history \<Rightarrow>
               (case dt_sub now history of
                  Inl e \<Rightarrow> (Inl e, w1)
                | Inr start \<Rightarrow>
                    let since = (of_int (trunc_div start 1000) :: rat) in
                    (case near_now_delta (chars env) (timeframe a) of
                       Inl e \<Rightarrow> (Inl e, w1)
                     | Inr delta \<Rightarrow>
                         if in_ns_bounds since then (Inr (since, delta), w1)
                         else (Inl OutOfBoundsDatetime, w1)))))"

text \<open>One turn of the \<^verbatim>\<open>while True\<close> loop: it ends the loop or hands over to the next turn.\<close>

datatype 'x turn =
    Done "py_error + raw_row list" "'x world"
  | Again "'x world" rat "raw_row list"

definition loop_body ::
  "'x env \<Rightarrow> args \<Rightarrow> int \<Rightarrow> 'x world \<Rightarrow> rat \<Rightarrow> raw_row list \<Rightarrow> 'x turn" where
  "loop_body env a near_now w since all_rows =
     (case fetch_ohlcv env (outside w) (symbol a) (timeframe a) since (limit a) of
        (res, x1) \<Rightarrow>
          let w1 = w\<lparr>outside := x1, requests := requests w @ [since]\<rparr> in
          (case res of
             Inl e \<Rightarrow> Done (Inl e) w1
           | Inr batch \<Rightarrow>
               if batch = [] then Done (Inr all_rows) w1
               else
                 (case fromtimestamp_ms (timestamp_ms (hd batch)) of
                    Inl e \<Rightarrow> Done (Inl e) w1
                  | Inr first_ts \<Rightarrow>
                      (case fromtimestamp_ms (timestamp_ms (last batch)) of
                         Inl e \<Rightarrow> Done (Inl e) w1
                       | Inr last_ms \<Rightarrow>
                           let all_rows' = all_rows @ batch;
                               next_since = last_ms + 1
                           in if next_since \<le> since then Done (Inr all_rows') w1
                              else
                                (case utcnow env x1 of
                                   (now, x2) \<Rightarrow>
                                     let w2 = w1\<lparr>outside := x2\<rparr> in
                                     (case dt_sub now near_now of
                                        Inl e \<Rightarrow> Done (Inl e) w2
                                      | Inr cutoff \<Rightarrow>
                                          if last_ms * 1000 \<ge> of_int cutoff
                                          then Done (Inr all_rows') w2
                                          else Again
                                                 (w2\<lparr>outside := sleep env (sleep_seconds a) x2\<rparr>)
                                                 next_since all_rows'))))))"

text \<open>
  The loop. Nothing bounds the number of its turns, so the result is an option: \<open>None\<close>
  is the run that never leaves the loop.
\<close>

partial_function (option) fetch_loop ::
  "'x env \<Rightarrow> args \<Rightarrow> int \<Rightarrow> 'x world \<Rightarrow> rat \<Rightarrow> raw_row list
     \<Rightarrow> ((py_error + raw_row list) \<times> 'x world) option" where
  "fetch_loop env a near_now w since all_rows =
     (case loop_body env a near_now w since all_rows of
        Done res w' \<Rightarrow> Some (res, w')
      | Again w' since' all_rows' \<Rightarrow> fetch_loop env a near_now w' since' all_rows')"

declare fetch_loop.simps [code]

text \<open>\<^verbatim>\<open>os.path.dirname\<close>, and \<^verbatim>\<open>os.makedirs(..., exist_ok=True)\<close>, which raises for
  the empty path.\<close>

definition dirname :: "string \<Rightarrow> string" where
  "dirname p =
     (let head = rev (dropWhile (\<lambda>c. c \<noteq> CHR ''/'') (rev p))
      in if head \<noteq> [] \<and> \<not> list_all (\<lambda>c. c = CHR ''/'') head
         then rev (dropWhile (\<lambda>c. c = CHR ''/'') (rev head))
         else head)"

definition makedirs :: "string \<Rightarrow> py_error + unit" where
  "makedirs d = (if d = [] then Inl FileNotFoundError else Inr ())"

text \<open>\<^verbatim>\<open>if cache_path\<close>: neither \<^verbatim>\<open>None\<close> nor the empty string.\<close>

definition given_path :: "string option \<Rightarrow> string option" where
  "given_path cp = (case cp of None \<Rightarrow> None | Some p \<Rightarrow> if p = [] then None else Some p)"

text \<open>Lines 95 to 99: the frame read from an existing cache file.\<close>

definition load_cache :: "'x env \<Rightarrow> candle list \<Rightarrow> py_error + candle list" where
  "load_cache env stored =
     (case pd_read_back env stored of
        Inl e \<Rightarrow> Inl e
      | Inr df \<Rightarrow> Inr (drop_duplicates (pd_sort_values env df)))"

text \<open>Lines 142 to 148: the frame of the rows, written to the cache path when one is given.\<close>

definition finish_fetch ::
  "'x env \<Rightarrow> args \<Rightarrow> raw_row list \<Rightarrow> 'x world \<Rightarrow> (py_error + candle list) \<times> 'x world" where
  "finish_fetch env a all_rows w =
     (case ohlcv_to_df (pd_sort_values env) all_rows of
        Inl e \<Rightarrow> (Inl e, w)
      | Inr df \<Rightarrow>
          (case given_path (cache_path a) of
             None \<Rightarrow> (Inr df, w)
           | Some p \<Rightarrow>
               (case makedirs (dirname p) of
                  Inl e \<Rightarrow> (Inl e, w)
                | Inr u \<Rightarrow> (Inr df, w\<lparr>files := AList.update p df (files w)\<rparr>))))"

definition cached :: "args \<Rightarrow> 'x world \<Rightarrow> candle list option" where
  "cached a w = (case given_path (cache_path a) of None \<Rightarrow> None | Some p \<Rightarrow> map_of (files w) p)"

definition fetch_ohlcv_full ::
  "'x env \<Rightarrow> args \<Rightarrow> 'x world \<Rightarrow> ((py_error + candle list) \<times> 'x world) option" where
  "fetch_ohlcv_full env a w =
     (case cached a w of
        Some stored \<Rightarrow> Some (load_cache env stored, w)
      | None \<Rightarrow>
          (case start_fetch env a w of
             (Inl e, w0) \<Rightarrow> Some (Inl e, w0)
           | (Inr (since, near_now), w0) \<Rightarrow>
               (case fetch_loop env a near_now w0 since [] of
                  None \<Rightarrow> None
                | Some (Inl e, w1) \<Rightarrow> Some (Inl e, w1)
                | Some (Inr all_rows, w1) \<Rightarrow> Some (finish_fetch env a all_rows w1))))"

definition get_btc_hourly :: "'x env \<Rightarrow> bool \<Rightarrow> 'x world \<Rightarrow> ((py_error + candle list) \<times> 'x world) option" where
  "get_btc_hourly env cache w =
     fetch_ohlcv_full env
       \<lparr>timeframe = py_str ''1h'', symbol = SYMBOL, limit = FETCH_LIMIT,
        sleep_seconds = SLEEP_SECONDS,
        cache_path = (if cache then Some (RAW_DATA_DIR @ ''/btc_usdt_1h.csv'') else None)\<rparr> w"

definition get_btc_daily :: "'x env \<Rightarrow> bool \<Rightarrow> 'x world \<Rightarrow> ((py_error + candle list) \<times> 'x world) option" where
  "get_btc_daily env cache w =
     fetch_ohlcv_full env
       \<lparr>timeframe = py_str ''1d'', symbol = SYMBOL, limit = FETCH_LIMIT,
        sleep_seconds = SLEEP_SECONDS,
        cache_path = (if cache then Some (RAW_DATA_DIR @ ''/btc_usdt_1d.csv'') else None)\<rparr> w"

subsection \<open>Runs of the loop\<close>

text \<open>
  The last timestamp of a page as the loop reads it (lines 119 to 125): none for an
  empty page, and none when \<^verbatim>\<open>fromtimestamp\<close> raises on the first or on the last
  timestamp of the page.
\<close>

definition page_end :: "raw_row list \<Rightarrow> rat option" where
  "page_end page =
     (if page = [] then None
      else
        (case fromtimestamp_ms (timestamp_ms (hd page)) of
           Inl e \<Rightarrow> None
         | Inr first_ts \<Rightarrow>
             (case fromtimestamp_ms (timestamp_ms (last page)) of
                Inl e \<Rightarrow> None
              | Inr last_ms \<Rightarrow> Some last_ms)))"

text \<open>
  The near-now test of line 135 for a last timestamp \<open>last_ms\<close>: none when the
  subtraction raises.
\<close>

definition near_now_reached :: "int \<Rightarrow> int \<Rightarrow> rat \<Rightarrow> bool option" where
  "near_now_reached now near_now last_ms =
     (case dt_sub now near_now of
        Inl e \<Rightarrow> None
      | Inr cutoff \<Rightarrow> Some (last_ms * 1000 \<ge> of_int cutoff))"

text \<open>
  \<open>served env a near_now w since pages\<close>: asked from the cursor \<open>since\<close> on, in the state
  \<open>w\<close>, the adapter returns the pages of the list one after the other, each of them not
  empty, with a last timestamp that moves the cursor forward and that is more than the
  cutoff before the time the clock shows then. The result is the state and the cursor
  after the last of them.
\<close>

fun served ::
  "'x env \<Rightarrow> args \<Rightarrow> int \<Rightarrow> 'x world \<Rightarrow> rat \<Rightarrow> raw_row list list \<Rightarrow> ('x world \<times> rat) option" where
  "served env a near_now w since [] = Some (w, since)"
| "served env a near_now w since (page # pages) =
     (case fetch_ohlcv env (outside w) (symbol a) (timeframe a) since (limit a) of
        (Inl e, x1) \<Rightarrow> None
      | (Inr batch, x1) \<Rightarrow>
          (case page_end batch of
             None \<Rightarrow> None
           | Some last_ms \<Rightarrow>
               (case utcnow env x1 of
                  (now, x2) \<Rightarrow>
                    if batch = page \<and> since < last_ms + 1
                       \<and> near_now_reached now near_now last_ms = Some False
                    then served env a near_now
                           (w\<lparr>outside := sleep env (sleep_seconds a) x2,
                              requests := requests w @ [since]\<rparr>)
                           (last_ms + 1) pages
                    else None)))"

text \<open>
  A cache path that \<^verbatim>\<open>os.makedirs(os.path.dirname(cache_path))\<close> accepts: none, or one
  with a directory part.
\<close>

definition cache_dir_ok :: "args \<Rightarrow> bool" where
  "cache_dir_ok a =
     (case given_path (cache_path a) of None \<Rightarrow> True | Some p \<Rightarrow> dirname p \<noteq> [])"

subsection \<open>An adapter stub\<close>

text \<open>
  A stub of the outside for the examples: the exchange answers the requests with the
  responses of a list, in their order, and with empty pages once the list is used up;
  the clock shows a time that only \<^verbatim>\<open>sleep\<close> advances.
\<close>

record stub =
  script :: "(py_error + raw_row list) list"
  clock :: int

definition stub_fetch ::
  "stub \<Rightarrow> string \<Rightarrow> pystr \<Rightarrow> rat \<Rightarrow> int \<Rightarrow> (py_error + raw_row list) \<times> stub" where
  "stub_fetch x smb tf since n =
     (case script x of [] \<Rightarrow> (Inr [], x) | r # rs \<Rightarrow> (r, x\<lparr>script := rs\<rparr>))"

definition stub_now :: "stub \<Rightarrow> int \<times> stub" where
  "stub_now x = (clock x, x)"

definition stub_sleep :: "rat \<Rightarrow> stub \<Rightarrow> stub" where
  "stub_sleep s x = x\<lparr>clock := clock x + \<lfloor>s * 1000000\<rfloor>\<rparr>"

definition stub_env :: "stub env" where
  "stub_env =
     \<lparr>fetch_ohlcv = stub_fetch, utcnow = stub_now, sleep = stub_sleep, chars = unicode14,
      pd_sort_values = numpy_sort_values, pd_read_back = Inr\<rparr>"

text \<open>
  The clock of the examples shows 2023-11-14 22:13:20 UTC; three years of 365 days
  before it is the millisecond \<open>1605392000000\<close>.
\<close>

definition t0 :: rat where
  "t0 = 1605392000000"

definition stub_world ::
  "(py_error + raw_row list) list \<Rightarrow> (string \<times> candle list) list \<Rightarrow> stub world" where
  "stub_world responses fs =
     \<lparr>outside = \<lparr>script = responses, clock = 1700000000000000\<rparr>, files = fs, requests = []\<rparr>"

definition hourly_args :: "string option \<Rightarrow> args" where
  "hourly_args cp =
     \<lparr>timeframe = py_str ''1h'', symbol = SYMBOL, limit = FETCH_LIMIT,
      sleep_seconds = SLEEP_SECONDS, cache_path = cp\<rparr>"

text \<open>Two hourly rows from the millisecond \<open>t\<close> on, at the price \<open>p\<close>.\<close>

definition two_hours :: "rat \<Rightarrow> rat \<Rightarrow> raw_row list" where
  "two_hours t p = [bar t p, bar (t + 3600000) p]"

text \<open>Two pages for the examples, and the state after they were served.\<close>

definition pages2 :: "raw_row list list" where
  "pages2 = [two_hours t0 1, two_hours (t0 + 7200000) 2]"

definition after_pages2 :: "(py_error + raw_row list) list \<Rightarrow> stub world" where
  "after_pages2 rest =
     \<lparr>outside = \<lparr>script = rest, clock = 1700000000400000\<rparr>, files = [],
      requests = [t0, t0 + 3600001]\<rparr>"


section \<open>Properties of the timeframe policy\<close>

lemma py_str_simps:
  "py_str ''1h'' = [49, 104]" "py_str ''1d'' = [49, 100]" "py_str ''1'' = [49]"
  "py_str ''h'' = [104]" "py_str ''d'' = [100]"
  by (simp_all add: py_str_def)

lemma todecimal_one: "todecimal db 49 = Some 1"
  by (simp add: todecimal_def)

lemma decimal_imp_isdigit:
  "list_all (is_decimal_chr db) ds \<Longrightarrow> list_all (isdigit_chr db) ds"
  by (induction ds) (auto simp: isdigit_chr_def)

lemma py_int_decimal: "decimal_numeral db ds \<Longrightarrow> py_int db ds = Inr (digits_value db ds)"
  by (simp add: decimal_numeral_def py_int_def)

lemma decimal_of_nonneg: "0 \<le> decimal_of db c"
  by (simp add: decimal_of_def split: option.splits)

lemma digits_value_foldl_nonneg:
  "0 \<le> a \<Longrightarrow> 0 \<le> foldl (\<lambda>a c. 10 * a + decimal_of db c) a ds"
  by (induction ds arbitrary: a) (auto simp: decimal_of_nonneg)

lemma digits_value_nonneg: "0 \<le> digits_value db ds"
  unfolding digits_value_def by (rule digits_value_foldl_nonneg) simp

lemma digits_value_one: "digits_value db (py_str ''1'') = 1"
  by (simp add: digits_value_def py_str_simps decimal_of_def todecimal_one)

lemma timedelta_hours_ok:
  "0 \<le> h \<Longrightarrow> h \<le> 23999999999 \<Longrightarrow> timedelta_hours h = Inr (h * hour_us)"
proof -
  assume h: "0 \<le> h" "h \<le> 23999999999"
  have "(h * hour_us) div day_us = h div 24"
    by (simp add: hour_us_def day_us_def)
  moreover have "0 \<le> h div 24" "h div 24 \<le> 999999999"
    using h by auto
  ultimately show ?thesis
    by (simp add: timedelta_hours_def timedelta_us_def max_delta_days_def)
qed

lemma timedelta_hours_overflow:
  "24000000000 \<le> h \<Longrightarrow> timedelta_hours h = Inl OverflowError"
proof -
  assume h: "24000000000 \<le> h"
  have "(h * hour_us) div day_us = h div 24"
    by (simp add: hour_us_def day_us_def)
  moreover have "999999999 < h div 24"
    using h by auto
  ultimately show ?thesis
    by (simp add: timedelta_hours_def timedelta_us_def max_delta_days_def)
qed

lemma timedelta_days_ok:
  "0 \<le> d \<Longrightarrow> d \<le> 999999999 \<Longrightarrow> timedelta_days d = Inr (d * day_us)"
  by (simp add: timedelta_days_def timedelta_us_def max_delta_days_def day_us_def)

lemma timedelta_days_overflow:
  "999999999 < d \<Longrightarrow> timedelta_days d = Inl OverflowError"
  by (simp add: timedelta_days_def timedelta_us_def max_delta_days_def day_us_def)

text \<open>The branch of a label \<open><N>h\<close> other than \<open>1h\<close>, and of a label \<open><N>d\<close> other than \<open>1d\<close>.\<close>

lemma near_now_delta_h_branch:
  assumes "decimal_numeral db ds" and "ds \<noteq> py_str ''1''"
  shows "near_now_delta db (ds @ py_str ''h'')
           = timedelta_hours (max 2 (digits_value db ds * 2))"
proof -
  have dig: "isdigit db ds"
    using assms(1) by (simp add: decimal_numeral_def isdigit_def decimal_imp_isdigit)
  have "ds @ py_str ''h'' \<noteq> py_str ''1h''" "ds @ py_str ''h'' \<noteq> py_str ''1d''"
    using assms(2) by (auto simp: py_str_simps append_eq_Cons_conv)
  then show ?thesis
    using dig py_int_decimal [OF assms(1)]
    by (simp add: near_now_delta_def endswith_chr_def drop_last_def py_str_simps)
qed

lemma near_now_delta_d_branch:
  assumes "decimal_numeral db ds" and "ds \<noteq> py_str ''1''"
  shows "near_now_delta db (ds @ py_str ''d'') = timedelta_days (max 1 (digits_value db ds))"
proof -
  have dig: "isdigit db ds"
    using assms(1) by (simp add: decimal_numeral_def isdigit_def decimal_imp_isdigit)
  have "ds @ py_str ''d'' \<noteq> py_str ''1h''" "ds @ py_str ''d'' \<noteq> py_str ''1d''"
    using assms(2) by (auto simp: py_str_simps append_eq_Cons_conv)
  then show ?thesis
    using dig py_int_decimal [OF assms(1)]
    by (simp add: near_now_delta_def endswith_chr_def drop_last_def py_str_simps)
qed

lemma near_now_delta_1h: "near_now_delta db (py_str ''1h'') = Inr (2 * hour_us)"
  by (simp add: near_now_delta_def timedelta_hours_def timedelta_us_def
      max_delta_days_def hour_us_def day_us_def)

lemma near_now_delta_1d: "near_now_delta db (py_str ''1d'') = Inr day_us"
  by (simp add: near_now_delta_def py_str_simps timedelta_days_def timedelta_us_def
      max_delta_days_def day_us_def)

lemma near_now_delta_hours:
  assumes "decimal_numeral db ds" and "digits_value db ds \<le> 11999999999"
  shows "near_now_delta db (ds @ py_str ''h'') = Inr (max 2 (2 * digits_value db ds) * hour_us)"
proof (cases "ds = py_str ''1''")
  case True
  have "py_str ''1'' @ py_str ''h'' = py_str ''1h''"
    by (simp add: py_str_def)
  then show ?thesis
    using True near_now_delta_1h [of db] by (simp add: digits_value_one)
next
  case False
  have "timedelta_hours (max 2 (digits_value db ds * 2))
      = Inr (max 2 (digits_value db ds * 2) * hour_us)"
    using digits_value_nonneg [of db ds] assms(2) by (intro timedelta_hours_ok) auto
  then show ?thesis
    using near_now_delta_h_branch [OF assms(1) False] by (simp add: mult.commute)
qed

lemma near_now_delta_days:
  assumes "decimal_numeral db ds" and "digits_value db ds \<le> 999999999"
  shows "near_now_delta db (ds @ py_str ''d'') = Inr (max 1 (digits_value db ds) * day_us)"
proof (cases "ds = py_str ''1''")
  case True
  have "py_str ''1'' @ py_str ''d'' = py_str ''1d''"
    by (simp add: py_str_def)
  then show ?thesis
    using True near_now_delta_1d [of db] by (simp add: digits_value_one)
next
  case False
  have "timedelta_days (max 1 (digits_value db ds)) = Inr (max 1 (digits_value db ds) * day_us)"
    using digits_value_nonneg [of db ds] assms(2) by (intro timedelta_days_ok) auto
  then show ?thesis
    using near_now_delta_d_branch [OF assms(1) False] by simp
qed

lemma near_now_delta_hours_overflow:
  assumes "decimal_numeral db ds" and "11999999999 < digits_value db ds"
  shows "near_now_delta db (ds @ py_str ''h'') = Inl OverflowError"
proof -
  have "ds \<noteq> py_str ''1''"
    using assms(2) by (auto simp: digits_value_one)
  moreover have "timedelta_hours (max 2 (digits_value db ds * 2)) = Inl OverflowError"
    using assms(2) by (intro timedelta_hours_overflow) auto
  ultimately show ?thesis
    using near_now_delta_h_branch [OF assms(1)] by simp
qed

lemma near_now_delta_days_overflow:
  assumes "decimal_numeral db ds" and "999999999 < digits_value db ds"
  shows "near_now_delta db (ds @ py_str ''d'') = Inl OverflowError"
proof -
  have "ds \<noteq> py_str ''1''"
    using assms(2) by (auto simp: digits_value_one)
  moreover have "timedelta_days (max 1 (digits_value db ds)) = Inl OverflowError"
    using assms(2) by (intro timedelta_days_overflow) auto
  ultimately show ?thesis
    using near_now_delta_d_branch [OF assms(1)] by simp
qed

lemma near_now_delta_other:
  assumes "\<not> digit_label db s"
  shows "near_now_delta db s = Inr (2 * hour_us)"
proof -
  have two: "timedelta_hours 2 = Inr (2 * hour_us)"
    by (rule timedelta_hours_ok) simp_all
  have "digit_label db (py_str ''1h'')" "digit_label db (py_str ''1d'')"
    by (simp_all add: digit_label_def endswith_chr_def drop_last_def isdigit_def
        isdigit_chr_def is_decimal_chr_def todecimal_def py_str_simps)
  then have "s \<noteq> py_str ''1h''" "s \<noteq> py_str ''1d''"
    using assms by auto
  then show ?thesis
    using assms two by (auto simp: near_now_delta_def digit_label_def)
qed

text \<open>
  Claim C6, as the code has it. Whatever the character database beyond ASCII,
  \<^verbatim>\<open>_near_now_delta\<close> returns 2 hours for \<open>1h\<close>, 1 day for \<open>1d\<close>,
  \<open>max(2 hours, 2N hours)\<close> for a label \<open><N>h\<close> and \<open>max(1 day, N days)\<close> for a label
  \<open><N>d\<close>, where \<open><N>\<close> is a string of at most 4300 decimal digits and the duration fits
  a \<^verbatim>\<open>timedelta\<close> (\<open>N \<le> 11999999999\<close> hours, \<open>N \<le> 999999999\<close> days), and 2 hours
  for every label that is not a run of \<^verbatim>\<open>isdigit\<close> characters followed by \<open>h\<close> or \<open>d\<close>.
  It is not total: for such a numeral beyond these bounds the \<^verbatim>\<open>timedelta\<close> constructor
  raises \<^verbatim>\<open>OverflowError\<close>.
\<close>

theorem near_now_delta_policy:
  "near_now_delta db (py_str ''1h'') = Inr (2 * hour_us) \<and>
   near_now_delta db (py_str ''1d'') = Inr day_us \<and>
   (\<forall>ds. decimal_numeral db ds \<and> digits_value db ds \<le> 11999999999 \<longrightarrow>
      near_now_delta db (ds @ py_str ''h'')
        = Inr (max 2 (2 * digits_value db ds) * hour_us)) \<and>
   (\<forall>ds. decimal_numeral db ds \<and> digits_value db ds \<le> 999999999 \<longrightarrow>
      near_now_delta db (ds @ py_str ''d'') = Inr (max 1 (digits_value db ds) * day_us)) \<and>
   (\<forall>ds. decimal_numeral db ds \<and> 11999999999 < digits_value db ds \<longrightarrow>
      near_now_delta db (ds @ py_str ''h'') = Inl OverflowError) \<and>
   (\<forall>ds. decimal_numeral db ds \<and> 999999999 < digits_value db ds \<longrightarrow>
      near_now_delta db (ds @ py_str ''d'') = Inl OverflowError) \<and>
   (\<forall>s. \<not> digit_label db s \<longrightarrow> near_now_delta db s = Inr (2 * hour_us))"
  using near_now_delta_1h near_now_delta_1d near_now_delta_hours near_now_delta_days
    near_now_delta_hours_overflow near_now_delta_days_overflow near_now_delta_other
  by blast

text \<open>
  The policy at work, with the database of Unicode 14.0: the labels \<open>4h\<close>, \<open>07d\<close> and
  \<open>15m\<close>, the label of the Arabic-Indic digit four (U+0664) followed by \<open>h\<close>, and the
  label \<open>12000000000h\<close>, whose duration is one hour more than a \<^verbatim>\<open>timedelta\<close> holds.
\<close>

theorem near_now_delta_policy_witness:
  "decimal_numeral unicode14 (py_str ''4'') \<and> digits_value unicode14 (py_str ''4'') = 4 \<and>
   near_now_delta unicode14 (py_str ''4h'') = Inr 28800000000 \<and>
   decimal_numeral unicode14 [1636] \<and> digits_value unicode14 [1636] = 4 \<and>
   near_now_delta unicode14 [1636, 104] = Inr 28800000000 \<and>
   decimal_numeral unicode14 (py_str ''07'') \<and> digits_value unicode14 (py_str ''07'') = 7 \<and>
   near_now_delta unicode14 (py_str ''07d'') = Inr 604800000000 \<and>
   decimal_numeral unicode14 (py_str ''12000000000'') \<and>
   digits_value unicode14 (py_str ''12000000000'') = 12000000000 \<and>
   near_now_delta unicode14 (py_str ''12000000000h'') = Inl OverflowError \<and>
   \<not> digit_label unicode14 (py_str ''15m'') \<and>
   near_now_delta unicode14 (py_str ''15m'') = Inr 7200000000"
proof -
  have hours: "\<And>ds. decimal_numeral unicode14 ds \<Longrightarrow> digits_value unicode14 ds \<le> 11999999999 \<Longrightarrow>
      near_now_delta unicode14 (ds @ py_str ''h'')
        = Inr (max 2 (2 * digits_value unicode14 ds) * hour_us)"
    and days: "\<And>ds. decimal_numeral unicode14 ds \<Longrightarrow> digits_value unicode14 ds \<le> 999999999 \<Longrightarrow>
      near_now_delta unicode14 (ds @ py_str ''d'')
        = Inr (max 1 (digits_value unicode14 ds) * day_us)"
    and over: "\<And>ds. decimal_numeral unicode14 ds \<Longrightarrow> 11999999999 < digits_value unicode14 ds \<Longrightarrow>
      near_now_delta unicode14 (ds @ py_str ''h'') = Inl OverflowError"
    and other: "\<And>s. \<not> digit_label unicode14 s \<Longrightarrow>
      near_now_delta unicode14 s = Inr (2 * hour_us)"
    using near_now_delta_policy [of unicode14] by blast+
  have arabic: "todecimal unicode14 1636 = Some 4"
    by (simp add: todecimal_def unicode14_def decimal_runs_def in_run_def)
  have h4: "decimal_numeral unicode14 (py_str ''4'')"
    by (simp add: decimal_numeral_def is_decimal_chr_def todecimal_def py_str_def
        int_max_str_digits_def)
  have v4: "digits_value unicode14 (py_str ''4'') = 4"
    by (simp add: digits_value_def decimal_of_def todecimal_def py_str_def)
  have a4: "decimal_numeral unicode14 [1636]"
    by (simp add: decimal_numeral_def is_decimal_chr_def arabic int_max_str_digits_def)
  have va: "digits_value unicode14 [1636] = 4"
    by (simp add: digits_value_def decimal_of_def arabic)
  have d7: "decimal_numeral unicode14 (py_str ''07'')"
    by (simp add: decimal_numeral_def is_decimal_chr_def todecimal_def py_str_def
        int_max_str_digits_def)
  have v7: "digits_value unicode14 (py_str ''07'') = 7"
    by (simp add: digits_value_def decimal_of_def todecimal_def py_str_def)
  have big: "decimal_numeral unicode14 (py_str ''12000000000'')"
    by (simp add: decimal_numeral_def is_decimal_chr_def todecimal_def py_str_def
        int_max_str_digits_def)
  have vb: "digits_value unicode14 (py_str ''12000000000'') = 12000000000"
    by (simp add: digits_value_def decimal_of_def todecimal_def py_str_def)
  have m: "\<not> digit_label unicode14 (py_str ''15m'')"
    by (simp add: digit_label_def endswith_chr_def py_str_def)
  have s: "py_str ''4'' @ py_str ''h'' = py_str ''4h''" "[1636] @ py_str ''h'' = [1636, 104]"
    "py_str ''07'' @ py_str ''d'' = py_str ''07d''"
    "py_str ''12000000000'' @ py_str ''h'' = py_str ''12000000000h''"
    by (simp_all add: py_str_def)
  have r4: "near_now_delta unicode14 (py_str ''4h'') = Inr 28800000000"
    using hours [OF h4] v4 s(1) by (simp add: hour_us_def)
  have ra: "near_now_delta unicode14 [1636, 104] = Inr 28800000000"
    using hours [OF a4] va s(2) by (simp add: hour_us_def)
  have r7: "near_now_delta unicode14 (py_str ''07d'') = Inr 604800000000"
    using days [OF d7] v7 s(3) by (simp add: day_us_def)
  have rb: "near_now_delta unicode14 (py_str ''12000000000h'') = Inl OverflowError"
    using over [OF big] vb s(4) by simp
  have rm: "near_now_delta unicode14 (py_str ''15m'') = Inr 7200000000"
    using other [OF m] by (simp add: hour_us_def)
  show ?thesis
    using h4 v4 a4 va d7 v7 big vb m r4 ra r7 rb rm by blast
qed

text \<open>
  Claim C6 as stated fails: the label \<open>1000000000d\<close> asks for a \<^verbatim>\<open>timedelta\<close> of
  \<open>10^9\<close> days, one more than the type holds, and the constructor raises
  \<^verbatim>\<open>OverflowError\<close>; no duration is returned.
\<close>

theorem near_now_delta_overflow_counterexample:
  "near_now_delta unicode14 (py_str ''1000000000d'') = Inl OverflowError"
  by (simp add: near_now_delta_def py_str_def endswith_chr_def drop_last_def isdigit_def
      isdigit_chr_def is_decimal_chr_def todecimal_def py_int_def int_max_str_digits_def
      digits_value_def decimal_of_def timedelta_days_def timedelta_us_def max_delta_days_def
      day_us_def)

section \<open>Properties of the row normalizer\<close>

lemma to_numeric_NaN: "to_numeric c = NaN \<longleftrightarrow> \<not> is_number c"
  by (cases c) (auto simp: is_number_def)

lemma to_numeric_Num: "is_number c \<Longrightarrow> c = Num (to_numeric c)"
  by (cases c) (auto simp: is_number_def)

lemma to_datetime_col_dropna:
  "to_datetime_col (map timestamp_ms ohlcv) = Inr ts \<Longrightarrow> dropna ts ohlcv = valid_candles ohlcv"
proof (induction ohlcv arbitrary: ts)
  case Nil
  then show ?case by simp
next
  case (Cons r rs)
  then show ?case
    by (auto simp: candle_of_def split: sum.splits option.splits)
qed

lemma to_datetime_col_ok:
  "list_all datetime_ok ohlcv \<Longrightarrow> \<exists>ts. to_datetime_col (map timestamp_ms ohlcv) = Inr ts"
  by (induction ohlcv) (auto simp: datetime_ok_def split: sum.splits)

lemma to_datetime_col_Inr_ok:
  "to_datetime_col (map timestamp_ms ohlcv) = Inr ts \<Longrightarrow> list_all datetime_ok ohlcv"
  by (induction ohlcv arbitrary: ts) (auto simp: datetime_ok_def split: sum.splits)

lemma ohlcv_to_df_ok:
  "list_all datetime_ok ohlcv \<Longrightarrow>
     ohlcv_to_df sv ohlcv = Inr (drop_duplicates (sv (valid_candles ohlcv)))"
  using to_datetime_col_ok [of ohlcv] to_datetime_col_dropna [of ohlcv]
  by (auto simp: ohlcv_to_df_def)

lemma ohlcv_to_df_Inr:
  "ohlcv_to_df sv ohlcv = Inr df \<Longrightarrow>
     list_all datetime_ok ohlcv \<and> df = drop_duplicates (sv (valid_candles ohlcv))"
  using to_datetime_col_Inr_ok [of ohlcv] to_datetime_col_dropna [of ohlcv]
  by (auto simp: ohlcv_to_df_def split: sum.splits)

lemma set_valid_candles:
  "set (valid_candles ohlcv) = {c. \<exists>r\<in>set ohlcv. candle_of r = Some c}"
  by (induction ohlcv) (auto split: option.splits)

lemma candle_of_Some:
  "candle_of r = Some c \<Longrightarrow>
     complete_row r \<and> timestamp_ms r = Num (Fin (timestamp c)) \<and> in_ns_bounds (timestamp c)
       \<and> raw_open r = Num (c_open c) \<and> raw_high r = Num (c_high c)
       \<and> raw_low r = Num (c_low c) \<and> raw_close r = Num (c_close c)
       \<and> raw_volume r = Num (c_volume c) \<and> no_nan c"
  apply (cases "timestamp_ms r" rule: to_datetime.cases)
  apply (auto simp: candle_of_def dropna_row_def complete_row_def to_numeric_NaN no_nan_def
      to_numeric_Num is_number_def split: option.splits if_splits sum.splits)
  done

lemma candle_of_complete:
  "complete_row r \<Longrightarrow> datetime_ok r \<Longrightarrow> \<exists>c. candle_of r = Some c"
  apply (cases "timestamp_ms r" rule: to_datetime.cases)
  apply (auto simp: candle_of_def dropna_row_def complete_row_def to_numeric_NaN datetime_ok_def
      is_number_def split: option.splits if_splits sum.splits)
  done

text \<open>drop_duplicates\<close>

lemma ddf_subset: "set (drop_duplicates_from seen cs) \<subseteq> set cs"
  by (induction cs arbitrary: seen) auto

lemma ddf_timestamps:
  "timestamp ` set (drop_duplicates_from seen cs) = timestamp ` set cs - set seen"
  by (induction cs arbitrary: seen) auto

lemma ddf_distinct: "distinct (map timestamp (drop_duplicates_from seen cs))"
  by (induction cs arbitrary: seen) (auto simp: ddf_timestamps)

lemma ddf_sorted:
  "sorted (map timestamp cs) \<Longrightarrow> sorted (map timestamp (drop_duplicates_from seen cs))"
proof (induction cs arbitrary: seen)
  case Nil
  then show ?case by simp
next
  case (Cons c cs)
  then show ?case using ddf_subset [of "timestamp c # seen" cs] by auto
qed

lemma ddf_filter:
  "filter (\<lambda>c. timestamp c = t) (drop_duplicates_from seen cs) =
     (if t \<in> set seen then []
      else case List.find (\<lambda>c. timestamp c = t) cs of None \<Rightarrow> [] | Some c \<Rightarrow> [c])"
proof (induction cs arbitrary: seen)
  case Nil
  then show ?case by simp
next
  case (Cons c cs)
  show ?case
  proof (cases "timestamp c \<in> set seen")
    case True
    then show ?thesis using Cons by auto
  next
    case False
    then show ?thesis using Cons by (auto split: option.splits)
  qed
qed

lemma find_filter_hd:
  "List.find P xs = (case filter P xs of [] \<Rightarrow> None | x # _ \<Rightarrow> Some x)"
  by (induction xs) auto

lemma find_sort_key:
  "List.find (\<lambda>c. f c = t) (sort_key f xs) = List.find (\<lambda>c. f c = t) xs"
  by (simp add: find_filter_hd sort_key_stable)

lemma sorted_distinct_strict:
  "sorted (xs :: rat list) \<Longrightarrow> distinct xs \<Longrightarrow> sorted_wrt (<) xs"
  by (simp add: strict_sorted_iff)

lemma drop_duplicates_rows_at:
  "rows_at t (drop_duplicates cs) = one_or_none (first_at t cs)"
  by (simp add: rows_at_def drop_duplicates_def ddf_filter one_or_none_def first_at_def)

lemma first_at_stable:
  "stable_at sv cs \<Longrightarrow> first_at t (sv cs) = first_at t cs"
  by (simp add: stable_at_def first_at_def find_sort_key)

lemma drop_duplicates_strict:
  assumes "sorted (map timestamp cs)"
  shows "sorted_wrt (<) (map timestamp (drop_duplicates cs))"
  using assms ddf_sorted [of cs "[]"] ddf_distinct [of "[]" cs]
  by (simp add: drop_duplicates_def strict_sorted_iff)

text \<open>Every row of the returned frame is the candle of a complete raw row.\<close>

lemma ohlcv_to_df_from_rows:
  assumes "ohlcv_to_df sort_values ohlcv = Inr df"
    and "sorts_by_timestamp sort_values (valid_candles ohlcv)"
  shows "\<forall>c\<in>set df. \<exists>r\<in>set ohlcv. complete_row r \<and> candle_of r = Some c"
proof
  fix c assume c: "c \<in> set df"
  have df: "df = drop_duplicates (sort_values (valid_candles ohlcv))"
    using assms(1) ohlcv_to_df_Inr by blast
  have "set (sort_values (valid_candles ohlcv)) = set (valid_candles ohlcv)"
    using assms(2) unfolding sorts_by_timestamp_def by (metis mset_eq_setD)
  then have "c \<in> set (valid_candles ohlcv)"
    using c ddf_subset [of "[]" "sort_values (valid_candles ohlcv)"]
    by (auto simp: df drop_duplicates_def)
  then obtain r where "r \<in> set ohlcv" "candle_of r = Some c"
    by (auto simp: set_valid_candles)
  then show "\<exists>r\<in>set ohlcv. complete_row r \<and> candle_of r = Some c"
    using candle_of_Some by blast
qed

text \<open>
  Claim C4, as the code has it. Let the timestamp field of every raw row be a number
  that fits 64-bit nanoseconds, NaN or \<^verbatim>\<open>None\<close> (so that \<^verbatim>\<open>to_datetime\<close> does not
  raise), and let \<^verbatim>\<open>sort_values\<close> return the rows it is given in ascending order of
  timestamp. Then \<^verbatim>\<open>_ohlcv_to_df\<close> returns a frame whose timestamps increase strictly
  with the position, so none occurs twice; none of its open, high, low, close and volume
  values is NaN (an infinity is kept); every row of it is the candle of a raw row whose
  six fields are numbers; and every raw row whose six fields are numbers has its
  timestamp in the frame.
\<close>

theorem ohlcv_to_df_table:
  assumes "list_all datetime_ok ohlcv"
    and "sorts_by_timestamp sort_values (valid_candles ohlcv)"
  shows "\<exists>df. ohlcv_to_df sort_values ohlcv = Inr df \<and>
           sorted_wrt (<) (map timestamp df) \<and> distinct (map timestamp df) \<and>
           list_all no_nan df \<and>
           (\<forall>c\<in>set df. \<exists>r\<in>set ohlcv. complete_row r \<and> candle_of r = Some c) \<and>
           (\<forall>r\<in>set ohlcv. complete_row r \<longrightarrow>
              (\<exists>c c'. candle_of r = Some c \<and> c' \<in> set df \<and> timestamp c' = timestamp c))"
proof -
  define cs where "cs = valid_candles ohlcv"
  define df where "df = drop_duplicates (sort_values cs)"
  have ret: "ohlcv_to_df sort_values ohlcv = Inr df"
    using assms(1) by (simp add: ohlcv_to_df_ok df_def cs_def)
  have set_eq: "set (sort_values cs) = set cs"
    using assms(2) unfolding sorts_by_timestamp_def cs_def by (metis mset_eq_setD)
  have srt: "sorted (map timestamp (sort_values cs))"
    using assms(2) by (simp add: sorts_by_timestamp_def cs_def)
  have strict: "sorted_wrt (<) (map timestamp df)"
    unfolding df_def by (rule drop_duplicates_strict [OF srt])
  have dist: "distinct (map timestamp df)"
    by (simp add: df_def drop_duplicates_def ddf_distinct)
  have from_row: "\<forall>c\<in>set df. \<exists>r\<in>set ohlcv. complete_row r \<and> candle_of r = Some c"
    by (rule ohlcv_to_df_from_rows [OF ret assms(2)])
  have nn: "list_all no_nan df"
    using from_row candle_of_Some by (auto simp: list_all_iff)
  have ts: "timestamp ` set df = timestamp ` set cs"
    using ddf_timestamps [of "[]" "sort_values cs"] set_eq
    by (simp add: df_def drop_duplicates_def)
  have kept: "\<forall>r\<in>set ohlcv. complete_row r \<longrightarrow>
              (\<exists>c c'. candle_of r = Some c \<and> c' \<in> set df \<and> timestamp c' = timestamp c)"
  proof (intro ballI impI)
    fix r assume r: "r \<in> set ohlcv" and "complete_row r"
    moreover have "datetime_ok r" using assms(1) r by (simp add: list_all_iff)
    ultimately obtain c where c: "candle_of r = Some c"
      using candle_of_complete by blast
    then have "c \<in> set cs" using r by (auto simp: cs_def set_valid_candles)
    then have "timestamp c \<in> timestamp ` set df" using ts by blast
    then show "\<exists>c c'. candle_of r = Some c \<and> c' \<in> set df \<and> timestamp c' = timestamp c"
      using c by auto
  qed
  show ?thesis using ret strict dist nn from_row kept by blast
qed

theorem ohlcv_to_df_table_witness:
  "list_all datetime_ok mixed_rows \<and>
   sorts_by_timestamp numpy_sort_values (valid_candles mixed_rows) \<and>
   ohlcv_to_df numpy_sort_values mixed_rows = Inr [bar_candle 1 7, bar_candle 2 5] \<and>
   sorted_wrt (<) (map timestamp [bar_candle 1 7, bar_candle 2 5]) \<and>
   list_all no_nan [bar_candle 1 7, bar_candle 2 5]"
proof -
  have h1: "list_all datetime_ok mixed_rows"
    by code_simp
  have h2: "sorts_by_timestamp numpy_sort_values (valid_candles mixed_rows)"
    by code_simp
  have v: "ohlcv_to_df numpy_sort_values mixed_rows = Inr [bar_candle 1 7, bar_candle 2 5]"
    by code_simp
  from ohlcv_to_df_table [OF h1 h2] obtain df where
    "ohlcv_to_df numpy_sort_values mixed_rows = Inr df"
    "sorted_wrt (<) (map timestamp df)" "list_all no_nan df"
    by blast
  with v have "sorted_wrt (<) (map timestamp [bar_candle 1 7, bar_candle 2 5])"
    "list_all no_nan [bar_candle 1 7, bar_candle 2 5]"
    by simp_all
  with h1 h2 v show ?thesis by blast
qed

text \<open>
  Claim C4 as stated fails twice. A row whose open is the float infinity has no NaN in
  it: it stays in the frame, with a value that is not finite. And a row whose timestamp
  is a text is not dropped: \<^verbatim>\<open>to_datetime\<close> raises, and no frame is returned.
\<close>

theorem ohlcv_to_df_infinity_counterexample:
  "ohlcv_to_df numpy_sort_values [(bar 0 1)\<lparr>raw_open := Num PosInf\<rparr>]
     = Inr [(bar_candle 0 1)\<lparr>c_open := PosInf\<rparr>] \<and>
   ohlcv_to_df numpy_sort_values [bar 0 1, (bar 1 1)\<lparr>timestamp_ms := Text\<rparr>]
     = Inl ValueError"
  by code_simp

text \<open>
  Claim C5, as the code has it. When \<^verbatim>\<open>to_datetime\<close> does not raise,
  \<^verbatim>\<open>_ohlcv_to_df\<close> keeps, at every timestamp, exactly the first of the valid rows with
  that timestamp in the order in which \<^verbatim>\<open>sort_values\<close> returns them (and no row where
  there is none), with the values of that row. Where the sort is stable this is the
  first such row of the input.
\<close>

theorem ohlcv_to_df_first_sorted:
  assumes "list_all datetime_ok ohlcv"
  shows "\<exists>df. ohlcv_to_df sort_values ohlcv = Inr df \<and>
           (\<forall>t. rows_at t df = one_or_none (first_at t (sort_values (valid_candles ohlcv)))) \<and>
           (stable_at sort_values (valid_candles ohlcv) \<longrightarrow>
              (\<forall>t. rows_at t df = one_or_none (first_at t (valid_candles ohlcv))))"
  using assms by (simp add: ohlcv_to_df_ok drop_duplicates_rows_at first_at_stable)

theorem ohlcv_to_df_first_sorted_witness:
  "list_all datetime_ok mixed_rows \<and>
   stable_at numpy_sort_values (valid_candles mixed_rows) \<and>
   first_at 2 (valid_candles mixed_rows) = Some (bar_candle 2 5) \<and>
   ohlcv_to_df numpy_sort_values mixed_rows = Inr [bar_candle 1 7, bar_candle 2 5] \<and>
   rows_at 2 [bar_candle 1 7, bar_candle 2 5] = [bar_candle 2 5]"
proof -
  have h1: "list_all datetime_ok mixed_rows"
    by code_simp
  have h2: "stable_at numpy_sort_values (valid_candles mixed_rows)"
    by code_simp
  have f: "first_at 2 (valid_candles mixed_rows) = Some (bar_candle 2 5)"
    by code_simp
  have v: "ohlcv_to_df numpy_sort_values mixed_rows = Inr [bar_candle 1 7, bar_candle 2 5]"
    by code_simp
  from ohlcv_to_df_first_sorted [OF h1, of numpy_sort_values] h2 obtain df where
    "ohlcv_to_df numpy_sort_values mixed_rows = Inr df"
    "rows_at 2 df = one_or_none (first_at 2 (valid_candles mixed_rows))"
    by blast
  with v f have "rows_at 2 [bar_candle 1 7, bar_candle 2 5] = [bar_candle 2 5]"
    by (simp add: one_or_none_def)
  with h1 h2 f v show ?thesis by blast
qed

text \<open>
  Claim C5 as stated fails: the sort is the library's \<^verbatim>\<open>quicksort\<close>, which is not
  stable. Two pages of nine rows, the first with price 1 at the milliseconds 0 to 8, the
  second with price 2 at the milliseconds 8 to 16: the first valid row at millisecond 8
  has price 1, and the frame holds the one with price 2.
\<close>

theorem ohlcv_to_df_unstable_counterexample:
  "first_at 8 (valid_candles (page_of 1 0 9 @ page_of 2 8 17)) = Some (bar_candle 8 1) \<and>
   ohlcv_to_df numpy_sort_values (page_of 1 0 9 @ page_of 2 8 17)
     = Inr (candles_of 1 0 8 @ candles_of 2 8 17) \<and>
   rows_at 8 (candles_of 1 0 8 @ candles_of 2 8 17) = [bar_candle 8 2]"
  by code_simp

text \<open>
  Claim C9, as the code has it. Every row of the frame that \<^verbatim>\<open>_ohlcv_to_df\<close> returns has
  a volume that is not NaN and that is the volume field of a raw row; the sign and the
  finiteness of a volume are not looked at, so that the volumes of the frame are finite
  and not negative when the numeric volumes of the input are.
\<close>

theorem ohlcv_to_df_volume:
  assumes "ohlcv_to_df sort_values ohlcv = Inr df"
    and "sorts_by_timestamp sort_values (valid_candles ohlcv)"
  shows "(\<forall>c\<in>set df. c_volume c \<noteq> NaN \<and> (\<exists>r\<in>set ohlcv. raw_volume r = Num (c_volume c))) \<and>
         ((\<forall>r\<in>set ohlcv. \<forall>v. raw_volume r = Num v \<longrightarrow> v = NaN \<or> finite_nonneg v) \<longrightarrow>
            (\<forall>c\<in>set df. finite_nonneg (c_volume c)))"
proof -
  have rows: "\<forall>c\<in>set df. \<exists>r\<in>set ohlcv. complete_row r \<and> candle_of r = Some c"
    by (rule ohlcv_to_df_from_rows [OF assms])
  have a: "\<forall>c\<in>set df. c_volume c \<noteq> NaN \<and> (\<exists>r\<in>set ohlcv. raw_volume r = Num (c_volume c))"
  proof
    fix c assume "c \<in> set df"
    then obtain r where r: "r \<in> set ohlcv" "candle_of r = Some c" using rows by blast
    from candle_of_Some [OF r(2)] have "raw_volume r = Num (c_volume c)" "no_nan c" by auto
    then show "c_volume c \<noteq> NaN \<and> (\<exists>r\<in>set ohlcv. raw_volume r = Num (c_volume c))"
      using r(1) by (auto simp: no_nan_def)
  qed
  then show ?thesis by blast
qed

theorem ohlcv_to_df_volume_witness:
  "ohlcv_to_df numpy_sort_values mixed_rows = Inr [bar_candle 1 7, bar_candle 2 5] \<and>
   sorts_by_timestamp numpy_sort_values (valid_candles mixed_rows) \<and>
   list_all (\<lambda>r. raw_volume r = Num NaN \<or> raw_volume r = Num (Fin 1)) mixed_rows \<and>
   list_all (\<lambda>c. finite_nonneg (c_volume c)) [bar_candle 1 7, bar_candle 2 5]"
proof -
  have v: "ohlcv_to_df numpy_sort_values mixed_rows = Inr [bar_candle 1 7, bar_candle 2 5]"
    by code_simp
  have h2: "sorts_by_timestamp numpy_sort_values (valid_candles mixed_rows)"
    by code_simp
  have vols: "list_all (\<lambda>r. raw_volume r = Num NaN \<or> raw_volume r = Num (Fin 1)) mixed_rows"
    by code_simp
  have one: "finite_nonneg (Fin 1)"
    by (simp add: finite_nonneg_def)
  have "\<forall>r\<in>set mixed_rows. \<forall>v. raw_volume r = Num v \<longrightarrow> v = NaN \<or> finite_nonneg v"
    using vols one by (auto simp: list_all_iff)
  with ohlcv_to_df_volume [OF v h2]
  have "\<forall>c\<in>set [bar_candle 1 7, bar_candle 2 5]. finite_nonneg (c_volume c)"
    by blast
  then have "list_all (\<lambda>c. finite_nonneg (c_volume c)) [bar_candle 1 7, bar_candle 2 5]"
    by (simp add: list_all_iff)
  with v h2 vols show ?thesis by blast
qed

text \<open>
  Claim C9 as stated fails: a row whose volume is \<open>-5\<close> has six numbers, and it is
  returned as it came.
\<close>

theorem ohlcv_to_df_negative_volume_counterexample:
  "ohlcv_to_df numpy_sort_values [(bar 0 1)\<lparr>raw_volume := Num (Fin (- 5))\<rparr>]
     = Inr [(bar_candle 0 1)\<lparr>c_volume := Fin (- 5)\<rparr>]"
  by code_simp

section \<open>Properties of the pagination engine\<close>

lemma page_end_Some:
  "page_end batch = Some q \<Longrightarrow>
     batch \<noteq> [] \<and> (\<exists>f. fromtimestamp_ms (timestamp_ms (hd batch)) = Inr f)
       \<and> fromtimestamp_ms (timestamp_ms (last batch)) = Inr q"
  by (auto simp: page_end_def split: if_splits sum.splits)

lemma loop_body_error:
  assumes "fetch_ohlcv env (outside w) (symbol a) (timeframe a) since (limit a) = (Inl e, x1)"
  shows "loop_body env a nn w since acc
           = Done (Inl e) (w\<lparr>outside := x1, requests := requests w @ [since]\<rparr>)"
  by (simp add: loop_body_def assms)

lemma loop_body_empty:
  assumes "fetch_ohlcv env (outside w) (symbol a) (timeframe a) since (limit a) = (Inr [], x1)"
  shows "loop_body env a nn w since acc
           = Done (Inr acc) (w\<lparr>outside := x1, requests := requests w @ [since]\<rparr>)"
  by (simp add: loop_body_def assms)

lemma loop_body_stagnant:
  assumes "fetch_ohlcv env (outside w) (symbol a) (timeframe a) since (limit a) = (Inr batch, x1)"
    and "page_end batch = Some q" and "q + 1 \<le> since"
  shows "loop_body env a nn w since acc
           = Done (Inr (acc @ batch)) (w\<lparr>outside := x1, requests := requests w @ [since]\<rparr>)"
  using page_end_Some [OF assms(2)] assms(1,3) by (auto simp: loop_body_def)

lemma loop_body_near_now:
  assumes "fetch_ohlcv env (outside w) (symbol a) (timeframe a) since (limit a) = (Inr batch, x1)"
    and "page_end batch = Some q" and "since < q + 1"
    and "utcnow env x1 = (now, x2)" and "near_now_reached now nn q = Some True"
  shows "loop_body env a nn w since acc
           = Done (Inr (acc @ batch)) (w\<lparr>outside := x2, requests := requests w @ [since]\<rparr>)"
  using page_end_Some [OF assms(2)] assms(1,3,4,5)
  by (auto simp: loop_body_def near_now_reached_def split: sum.splits)

lemma loop_body_again:
  assumes "fetch_ohlcv env (outside w) (symbol a) (timeframe a) since (limit a) = (Inr batch, x1)"
    and "page_end batch = Some q" and "since < q + 1"
    and "utcnow env x1 = (now, x2)" and "near_now_reached now nn q = Some False"
  shows "loop_body env a nn w since acc
           = Again (w\<lparr>outside := sleep env (sleep_seconds a) x2,
                      requests := requests w @ [since]\<rparr>) (q + 1) (acc @ batch)"
  using page_end_Some [OF assms(2)] assms(1,3,4,5)
  by (auto simp: loop_body_def near_now_reached_def split: sum.splits)

lemma fetch_loop_Done:
  "loop_body env a nn w since acc = Done res w' \<Longrightarrow>
     fetch_loop env a nn w since acc = Some (res, w')"
  by (subst fetch_loop.simps) simp

lemma fetch_loop_Again:
  "loop_body env a nn w since acc = Again w' since' acc' \<Longrightarrow>
     fetch_loop env a nn w since acc = fetch_loop env a nn w' since' acc'"
  by (subst fetch_loop.simps) simp

text \<open>Over the pages that are served the loop goes on, and keeps their rows in order.\<close>

lemma fetch_loop_served:
  "served env a nn w since pages = Some (w', since') \<Longrightarrow>
     fetch_loop env a nn w since acc = fetch_loop env a nn w' since' (acc @ concat pages)"
proof (induction pages arbitrary: w since acc)
  case Nil
  then show ?case by simp
next
  case (Cons page pages)
  obtain res x1 where f: "fetch_ohlcv env (outside w) (symbol a) (timeframe a) since (limit a)
      = (res, x1)"
    by (cases "fetch_ohlcv env (outside w) (symbol a) (timeframe a) since (limit a)")
  obtain now x2 where u: "utcnow env x1 = (now, x2)"
    by (cases "utcnow env x1")
  from Cons.prems f obtain batch where res: "res = Inr batch"
    by (cases res) auto
  from Cons.prems f res obtain q where q: "page_end batch = Some q"
    by (cases "page_end batch") auto
  from Cons.prems f res q u have c: "batch = page" "since < q + 1"
    "near_now_reached now nn q = Some False"
    and rest: "served env a nn (w\<lparr>outside := sleep env (sleep_seconds a) x2,
                  requests := requests w @ [since]\<rparr>) (q + 1) pages = Some (w', since')"
    by (auto split: if_splits)
  have "fetch_loop env a nn w since acc
      = fetch_loop env a nn (w\<lparr>outside := sleep env (sleep_seconds a) x2,
                  requests := requests w @ [since]\<rparr>) (q + 1) (acc @ batch)"
    using f res q c u by (intro fetch_loop_Again loop_body_again) auto
  also have "\<dots> = fetch_loop env a nn w' since' ((acc @ batch) @ concat pages)"
    by (rule Cons.IH [OF rest])
  finally show ?case using c(1) by simp
qed

text \<open>Every page that is served costs one request.\<close>

lemma served_requests:
  "served env a nn w since pages = Some (w', since') \<Longrightarrow>
     length (requests w') = length (requests w) + length pages \<and> files w' = files w"
proof (induction pages arbitrary: w since)
  case Nil
  then show ?case by simp
next
  case (Cons page pages)
  obtain res x1 where f: "fetch_ohlcv env (outside w) (symbol a) (timeframe a) since (limit a)
      = (res, x1)"
    by (cases "fetch_ohlcv env (outside w) (symbol a) (timeframe a) since (limit a)")
  obtain now x2 where u: "utcnow env x1 = (now, x2)"
    by (cases "utcnow env x1")
  from Cons.prems f obtain batch where res: "res = Inr batch"
    by (cases res) auto
  from Cons.prems f res obtain q where q: "page_end batch = Some q"
    by (cases "page_end batch") auto
  from Cons.prems f res q u
  have rest: "served env a nn (w\<lparr>outside := sleep env (sleep_seconds a) x2,
                  requests := requests w @ [since]\<rparr>) (q + 1) pages = Some (w', since')"
    by (auto split: if_splits)
  from Cons.IH [OF rest] show ?case by simp
qed

lemma start_fetch_world:
  "start_fetch env a w = (r, w0) \<Longrightarrow> files w0 = files w \<and> requests w0 = requests w"
  by (auto simp: start_fetch_def Let_def split: prod.splits sum.splits if_splits)

lemma finish_fetch_value:
  "cache_dir_ok a \<Longrightarrow> fst (finish_fetch env a rows w) = ohlcv_to_df (pd_sort_values env) rows"
  by (auto simp: finish_fetch_def cache_dir_ok_def makedirs_def split: sum.splits option.splits)

lemma finish_fetch_world:
  "requests (snd (finish_fetch env a rows w)) = requests w \<and>
   outside (snd (finish_fetch env a rows w)) = outside w"
  by (auto simp: finish_fetch_def makedirs_def split: sum.splits option.splits)

text \<open>A run that misses the cache, starts, and leaves the loop with rows.\<close>

lemma fetch_ohlcv_full_rows:
  assumes "cached a w = None"
    and "start_fetch env a w = (Inr (since, nn), w0)"
    and "fetch_loop env a nn w0 since [] = Some (Inr rows, w1)"
  shows "fetch_ohlcv_full env a w = Some (finish_fetch env a rows w1)"
  using assms by (simp add: fetch_ohlcv_full_def)

lemma fetch_ohlcv_full_raise:
  assumes "cached a w = None"
    and "start_fetch env a w = (Inr (since, nn), w0)"
    and "fetch_loop env a nn w0 since [] = Some (Inl e, w1)"
  shows "fetch_ohlcv_full env a w = Some (Inl e, w1)"
  using assms by (simp add: fetch_ohlcv_full_def)



text \<open>
  Claim C2. Let the call miss the cache and start, and let the adapter, after any number
  of pages that were served, return a page that is not empty and whose last timestamp
  plus one millisecond is at most the cursor. Then \<^verbatim>\<open>fetch_ohlcv_full\<close> returns, with
  what \<^verbatim>\<open>_ohlcv_to_df\<close> makes of the rows up to and including that page; the request of
  that page is the last one, and the outside is left as that request left it: no other
  page is asked for, and the loop has an end.
\<close>

theorem fetch_ohlcv_full_stagnant:
  assumes "cached a w = None"
    and "start_fetch env a w = (Inr (since, near_now), w0)"
    and "served env a near_now w0 since pages = Some (w1, since1)"
    and "fetch_ohlcv env (outside w1) (symbol a) (timeframe a) since1 (limit a) = (Inr batch, x2)"
    and "page_end batch = Some last_ms"
    and "last_ms + 1 \<le> since1"
    and "cache_dir_ok a"
  shows "\<exists>w'. fetch_ohlcv_full env a w
                 = Some (ohlcv_to_df (pd_sort_values env) (concat pages @ batch), w') \<and>
              requests w' = requests w1 @ [since1] \<and> outside w' = x2"
proof -
  define w2 where "w2 = w1\<lparr>outside := x2, requests := requests w1 @ [since1]\<rparr>"
  have "fetch_loop env a near_now w0 since [] = fetch_loop env a near_now w1 since1 (concat pages)"
    using fetch_loop_served [OF assms(3), of "[]"] by simp
  also have "\<dots> = Some (Inr (concat pages @ batch), w2)"
    unfolding w2_def by (rule fetch_loop_Done, rule loop_body_stagnant [OF assms(4,5,6)])
  finally have "fetch_ohlcv_full env a w = Some (finish_fetch env a (concat pages @ batch) w2)"
    by (rule fetch_ohlcv_full_rows [OF assms(1,2)])
  moreover have "fst (finish_fetch env a (concat pages @ batch) w2)
      = ohlcv_to_df (pd_sort_values env) (concat pages @ batch)"
    by (rule finish_fetch_value [OF assms(7)])
  moreover have "requests (snd (finish_fetch env a (concat pages @ batch) w2))
      = requests w1 @ [since1]"
    "outside (snd (finish_fetch env a (concat pages @ batch) w2)) = x2"
    by (simp_all add: finish_fetch_world w2_def)
  ultimately show ?thesis
    by (intro exI [of _ "snd (finish_fetch env a (concat pages @ batch) w2)"])
      (simp add: prod_eq_iff)
qed

theorem fetch_ohlcv_full_stagnant_witness:
  "cached (hourly_args None)
     (stub_world (map Inr (pages2 @ [two_hours t0 3, two_hours (t0 + 14400000) 4])) []) = None \<and>
   start_fetch stub_env (hourly_args None)
     (stub_world (map Inr (pages2 @ [two_hours t0 3, two_hours (t0 + 14400000) 4])) [])
     = (Inr (t0, 2 * hour_us),
        stub_world (map Inr (pages2 @ [two_hours t0 3, two_hours (t0 + 14400000) 4])) []) \<and>
   served stub_env (hourly_args None) (2 * hour_us)
     (stub_world (map Inr (pages2 @ [two_hours t0 3, two_hours (t0 + 14400000) 4])) []) t0 pages2
     = Some (after_pages2 (map Inr [two_hours t0 3, two_hours (t0 + 14400000) 4]),
             t0 + 10800001) \<and>
   page_end (two_hours t0 3) = Some (t0 + 3600000) \<and>
   t0 + 3600000 + 1 \<le> t0 + 10800001 \<and>
   fetch_ohlcv_full stub_env (hourly_args None)
     (stub_world (map Inr (pages2 @ [two_hours t0 3, two_hours (t0 + 14400000) 4])) [])
     = Some (ohlcv_to_df numpy_sort_values (concat pages2 @ two_hours t0 3),
             \<lparr>outside = \<lparr>script = [Inr (two_hours (t0 + 14400000) 4)],
                           clock = 1700000000400000\<rparr>,
              files = [], requests = [t0, t0 + 3600001, t0 + 10800001]\<rparr>)"
proof -
  define W where "W = stub_world (map Inr (pages2 @ [two_hours t0 3, two_hours (t0 + 14400000) 4])) []"
  define W1 where "W1 = after_pages2 (map Inr [two_hours t0 3, two_hours (t0 + 14400000) 4])"
  define X2 where "X2 = \<lparr>script = [Inr (two_hours (t0 + 14400000) 4)], clock = 1700000000400000\<rparr>"
  have h1: "cached (hourly_args None) W = None"
    unfolding W_def by code_simp
  have h2: "start_fetch stub_env (hourly_args None) W = (Inr (t0, 2 * hour_us), W)"
    unfolding W_def by code_simp
  have h3: "served stub_env (hourly_args None) (2 * hour_us) W t0 pages2
      = Some (W1, t0 + 10800001)"
    unfolding W_def W1_def by code_simp
  have h4: "fetch_ohlcv stub_env (outside W1) (symbol (hourly_args None))
      (timeframe (hourly_args None)) (t0 + 10800001) (limit (hourly_args None))
      = (Inr (two_hours t0 3), X2)"
    unfolding W1_def X2_def by code_simp
  have h5: "page_end (two_hours t0 3) = Some (t0 + 3600000)"
    by code_simp
  have h6: "t0 + 3600000 + 1 \<le> t0 + 10800001"
    by simp
  have h7: "cache_dir_ok (hourly_args None)"
    by code_simp
  from fetch_ohlcv_full_stagnant [OF h1 h2 h3 h4 h5 h6 h7] obtain w' where
    r: "fetch_ohlcv_full stub_env (hourly_args None) W
        = Some (ohlcv_to_df (pd_sort_values stub_env) (concat pages2 @ two_hours t0 3), w')"
    by blast
  have e: "fetch_ohlcv_full stub_env (hourly_args None) W
      = Some (ohlcv_to_df numpy_sort_values (concat pages2 @ two_hours t0 3),
             \<lparr>outside = X2, files = [], requests = [t0, t0 + 3600001, t0 + 10800001]\<rparr>)"
    unfolding W_def X2_def by code_simp
  show ?thesis
    using h1 h2 h3 h5 h6 e r unfolding W_def W1_def X2_def by blast
qed

text \<open>
  Claim C3. Let the call miss the cache and start, and let the adapter, after any number
  of pages that were served, return a page that is not empty, whose last timestamp
  moves the cursor forward and is at or after the time of the clock minus the near-now
  cutoff of the timeframe. Then \<^verbatim>\<open>fetch_ohlcv_full\<close> returns, with what
  \<^verbatim>\<open>_ohlcv_to_df\<close> makes of the rows up to and including that page; the request of that
  page is the last one, and the outside is left as the reading of the clock left it.
\<close>

theorem fetch_ohlcv_full_near_now:
  assumes "cached a w = None"
    and "start_fetch env a w = (Inr (since, near_now), w0)"
    and "served env a near_now w0 since pages = Some (w1, since1)"
    and "fetch_ohlcv env (outside w1) (symbol a) (timeframe a) since1 (limit a) = (Inr batch, x2)"
    and "page_end batch = Some last_ms"
    and "since1 < last_ms + 1"
    and "utcnow env x2 = (now, x3)"
    and "near_now_reached now near_now last_ms = Some True"
    and "cache_dir_ok a"
  shows "\<exists>w'. fetch_ohlcv_full env a w
                 = Some (ohlcv_to_df (pd_sort_values env) (concat pages @ batch), w') \<and>
              requests w' = requests w1 @ [since1] \<and> outside w' = x3"
proof -
  define w2 where "w2 = w1\<lparr>outside := x3, requests := requests w1 @ [since1]\<rparr>"
  have "fetch_loop env a near_now w0 since [] = fetch_loop env a near_now w1 since1 (concat pages)"
    using fetch_loop_served [OF assms(3), of "[]"] by simp
  also have "\<dots> = Some (Inr (concat pages @ batch), w2)"
    unfolding w2_def by (rule fetch_loop_Done, rule loop_body_near_now [OF assms(4,5,6,7,8)])
  finally have "fetch_ohlcv_full env a w = Some (finish_fetch env a (concat pages @ batch) w2)"
    by (rule fetch_ohlcv_full_rows [OF assms(1,2)])
  moreover have "fst (finish_fetch env a (concat pages @ batch) w2)
      = ohlcv_to_df (pd_sort_values env) (concat pages @ batch)"
    by (rule finish_fetch_value [OF assms(9)])
  moreover have "requests (snd (finish_fetch env a (concat pages @ batch) w2))
      = requests w1 @ [since1]"
    "outside (snd (finish_fetch env a (concat pages @ batch) w2)) = x3"
    by (simp_all add: finish_fetch_world w2_def)
  ultimately show ?thesis
    by (intro exI [of _ "snd (finish_fetch env a (concat pages @ batch) w2)"])
      (simp add: prod_eq_iff)
qed

theorem fetch_ohlcv_full_near_now_witness:
  "near_now_delta (chars stub_env) (py_str ''1h'') = Inr (2 * hour_us) \<and>
   page_end (two_hours 1699994600000 3) = Some 1699998200000 \<and>
   t0 + 10800001 < 1699998200000 + (1 :: rat) \<and>
   near_now_reached 1700000000400000 (2 * hour_us) 1699998200000 = Some True \<and>
   fetch_ohlcv_full stub_env (hourly_args None)
     (stub_world (map Inr (pages2 @ [two_hours 1699994600000 3, two_hours 1700001800000 4])) [])
     = Some (ohlcv_to_df numpy_sort_values (concat pages2 @ two_hours 1699994600000 3),
             \<lparr>outside = \<lparr>script = [Inr (two_hours 1700001800000 4)],
                           clock = 1700000000400000\<rparr>,
              files = [], requests = [t0, t0 + 3600001, t0 + 10800001]\<rparr>)"
proof -
  define W where
    "W = stub_world (map Inr (pages2 @ [two_hours 1699994600000 3, two_hours 1700001800000 4])) []"
  define W1 where
    "W1 = after_pages2 (map Inr [two_hours 1699994600000 3, two_hours 1700001800000 4])"
  define X2 where "X2 = \<lparr>script = [Inr (two_hours 1700001800000 4)], clock = 1700000000400000\<rparr>"
  have d: "near_now_delta (chars stub_env) (py_str ''1h'') = Inr (2 * hour_us)"
    by (rule near_now_delta_1h)
  have h1: "cached (hourly_args None) W = None"
    unfolding W_def by code_simp
  have h2: "start_fetch stub_env (hourly_args None) W = (Inr (t0, 2 * hour_us), W)"
    unfolding W_def by code_simp
  have h3: "served stub_env (hourly_args None) (2 * hour_us) W t0 pages2
      = Some (W1, t0 + 10800001)"
    unfolding W_def W1_def by code_simp
  have h4: "fetch_ohlcv stub_env (outside W1) (symbol (hourly_args None))
      (timeframe (hourly_args None)) (t0 + 10800001) (limit (hourly_args None))
      = (Inr (two_hours 1699994600000 3), X2)"
    unfolding W1_def X2_def by code_simp
  have h5: "page_end (two_hours 1699994600000 3) = Some 1699998200000"
    by code_simp
  have h6: "t0 + 10800001 < 1699998200000 + (1 :: rat)"
    by code_simp
  have h7: "utcnow stub_env X2 = (1700000000400000, X2)"
    unfolding X2_def by code_simp
  have h8: "near_now_reached 1700000000400000 (2 * hour_us) 1699998200000 = Some True"
    by code_simp
  have h9: "cache_dir_ok (hourly_args None)"
    by code_simp
  from fetch_ohlcv_full_near_now [OF h1 h2 h3 h4 h5 h6 h7 h8 h9] obtain w' where
    r: "fetch_ohlcv_full stub_env (hourly_args None) W
        = Some (ohlcv_to_df (pd_sort_values stub_env)
                  (concat pages2 @ two_hours 1699994600000 3), w')"
      "requests w' = requests W1 @ [t0 + 10800001]" "outside w' = X2"
    by blast
  have e: "fetch_ohlcv_full stub_env (hourly_args None) W
      = Some (ohlcv_to_df numpy_sort_values (concat pages2 @ two_hours 1699994600000 3),
             \<lparr>outside = X2, files = [], requests = [t0, t0 + 3600001, t0 + 10800001]\<rparr>)"
    unfolding W_def X2_def by code_simp
  show ?thesis
    using d h5 h6 h8 e r unfolding W_def W1_def X2_def by blast
qed

text \<open>
  Claim C7. Let the call miss the cache and start, and let the adapter, after any number
  of pages that were served, raise on a request. Then \<^verbatim>\<open>fetch_ohlcv_full\<close> ends with
  that error: no frame is returned, the files are those of before the call, and the
  failed request is the last one, the outside being left as it left it (no other
  attempt is made).
\<close>

theorem fetch_ohlcv_full_adapter_error:
  assumes "cached a w = None"
    and "start_fetch env a w = (Inr (since, near_now), w0)"
    and "served env a near_now w0 since pages = Some (w1, since1)"
    and "fetch_ohlcv env (outside w1) (symbol a) (timeframe a) since1 (limit a) = (Inl e, x2)"
  shows "fetch_ohlcv_full env a w
           = Some (Inl e, w1\<lparr>outside := x2, requests := requests w1 @ [since1]\<rparr>) \<and>
         files w1 = files w \<and>
         length (requests w1) = length (requests w) + length pages"
proof -
  have "fetch_loop env a near_now w0 since [] = fetch_loop env a near_now w1 since1 (concat pages)"
    using fetch_loop_served [OF assms(3), of "[]"] by simp
  also have "\<dots> = Some (Inl e, w1\<lparr>outside := x2, requests := requests w1 @ [since1]\<rparr>)"
    by (rule fetch_loop_Done, rule loop_body_error [OF assms(4)])
  finally have "fetch_ohlcv_full env a w
      = Some (Inl e, w1\<lparr>outside := x2, requests := requests w1 @ [since1]\<rparr>)"
    by (rule fetch_ohlcv_full_raise [OF assms(1,2)])
  moreover have "files w1 = files w" "length (requests w1) = length (requests w) + length pages"
    using served_requests [OF assms(3)] start_fetch_world [OF assms(2)] by simp_all
  ultimately show ?thesis by simp
qed

theorem fetch_ohlcv_full_adapter_error_witness:
  "cached (hourly_args (Some ''data/raw/btc_usdt_1h.csv''))
     (stub_world (map Inr pages2 @ [Inl (AdapterError ''NetworkError''),
        Inr (two_hours (t0 + 14400000) 4)]) []) = None \<and>
   fetch_ohlcv_full stub_env (hourly_args (Some ''data/raw/btc_usdt_1h.csv''))
     (stub_world (map Inr pages2 @ [Inl (AdapterError ''NetworkError''),
        Inr (two_hours (t0 + 14400000) 4)]) [])
     = Some (Inl (AdapterError ''NetworkError''),
             \<lparr>outside = \<lparr>script = [Inr (two_hours (t0 + 14400000) 4)],
                           clock = 1700000000400000\<rparr>,
              files = [], requests = [t0, t0 + 3600001, t0 + 10800001]\<rparr>)"
proof -
  define A where "A = hourly_args (Some ''data/raw/btc_usdt_1h.csv'')"
  define W where "W = stub_world (map Inr pages2 @ [Inl (AdapterError ''NetworkError''),
        Inr (two_hours (t0 + 14400000) 4)]) []"
  define W1 where "W1 = after_pages2 [Inl (AdapterError ''NetworkError''),
        Inr (two_hours (t0 + 14400000) 4)]"
  define X2 where "X2 = \<lparr>script = [Inr (two_hours (t0 + 14400000) 4)], clock = 1700000000400000\<rparr>"
  have h1: "cached A W = None"
    unfolding A_def W_def by code_simp
  have h2: "start_fetch stub_env A W = (Inr (t0, 2 * hour_us), W)"
    unfolding A_def W_def by code_simp
  have h3: "served stub_env A (2 * hour_us) W t0 pages2 = Some (W1, t0 + 10800001)"
    unfolding A_def W_def W1_def by code_simp
  have h4: "fetch_ohlcv stub_env (outside W1) (symbol A) (timeframe A) (t0 + 10800001) (limit A)
      = (Inl (AdapterError ''NetworkError''), X2)"
    unfolding A_def W1_def X2_def by code_simp
  have w: "W1\<lparr>outside := X2, requests := requests W1 @ [t0 + 10800001]\<rparr>
      = \<lparr>outside = X2, files = [], requests = [t0, t0 + 3600001, t0 + 10800001]\<rparr>"
    unfolding W1_def by (simp add: after_pages2_def)
  from fetch_ohlcv_full_adapter_error [OF h1 h2 h3 h4] w
  have "fetch_ohlcv_full stub_env A W
      = Some (Inl (AdapterError ''NetworkError''),
              \<lparr>outside = X2, files = [], requests = [t0, t0 + 3600001, t0 + 10800001]\<rparr>)"
    by simp
  with h1 show ?thesis
    unfolding A_def W_def X2_def by blast
qed

text \<open>
  Towards claim C8: what the cache-hit branch adds to the reading of the file. When the
  file of a frame with strictly increasing timestamps reads back as that frame, the
  sorting and the removal of duplicates leave it as it is. Whether the text of the file
  reads back as the frame is a matter of how pandas prints and parses floats and
  instants, which is outside this development.
\<close>

lemma drop_duplicates_from_distinct:
  "distinct (map timestamp cs) \<Longrightarrow> set (map timestamp cs) \<inter> set seen = {} \<Longrightarrow>
     drop_duplicates_from seen cs = cs"
  by (induction cs arbitrary: seen) auto

lemma sorted_frame_unique:
  assumes "mset ys = mset xs" and "sorted (map timestamp ys)"
    and "sorted_wrt (<) (map timestamp xs)"
  shows "ys = xs"
proof -
  have sx: "sorted (map timestamp xs)" and dx: "distinct (map timestamp xs)"
    using assms(3) by (simp_all add: strict_sorted_iff)
  have "mset (map timestamp ys) = mset (map timestamp xs)"
    using assms(1) by simp
  then have dy: "distinct (map timestamp ys)"
    using dx by (metis mset_eq_imp_distinct_iff)
  have st: "set ys = set xs"
    using assms(1) by (metis mset_eq_setD)
  have "inj_on timestamp (set ys \<union> set xs)"
    using dx st by (simp add: distinct_map)
  then show ?thesis
    using assms(2) dy sx dx st by (rule map_sorted_distinct_set_unique)
qed

lemma load_cache_valid_frame:
  assumes "pd_read_back env df = Inr df"
    and "sorted_wrt (<) (map timestamp df)"
    and "sorts_by_timestamp (pd_sort_values env) df"
  shows "load_cache env df = Inr df"
proof -
  have "pd_sort_values env df = df"
    using assms(2,3) by (auto simp: sorts_by_timestamp_def intro: sorted_frame_unique)
  moreover have "drop_duplicates df = df"
    using assms(2) by (simp add: drop_duplicates_def drop_duplicates_from_distinct strict_sorted_iff)
  ultimately show ?thesis
    using assms(1) by (simp add: load_cache_def)
qed

text \<open>
  Towards claim C10: with a cache path that has a directory part, a first page that is
  empty leaves an empty frame in the file, and every later call that finds the file
  returns the empty frame and leaves the state as it is, so that the adapter is not
  asked. Here \<^verbatim>\<open>sort_values\<close> returns the empty frame for the empty frame, and the file
  of the empty frame reads back as the empty frame.
\<close>

lemma fetch_ohlcv_full_empty_cached:
  assumes "given_path (cache_path a) = Some p" and "dirname p \<noteq> []"
    and "map_of (files w) p = None"
    and "start_fetch env a w = (Inr (since, near_now), w0)"
    and "fetch_ohlcv env (outside w0) (symbol a) (timeframe a) since (limit a) = (Inr [], x1)"
    and "pd_sort_values env [] = []" and "pd_read_back env [] = Inr []"
  shows "\<exists>w'. fetch_ohlcv_full env a w = Some (Inr [], w') \<and> map_of (files w') p = Some [] \<and>
           (\<forall>v. map_of (files v) p = Some [] \<longrightarrow> fetch_ohlcv_full env a v = Some (Inr [], v))"
proof -
  define w1 where "w1 = w0\<lparr>outside := x1, requests := requests w0 @ [since]\<rparr>"
  have c: "cached a w = None"
    using assms(1,3) by (simp add: cached_def)
  have "fetch_loop env a near_now w0 since [] = Some (Inr [], w1)"
    unfolding w1_def by (rule fetch_loop_Done, rule loop_body_empty [OF assms(5)])
  then have "fetch_ohlcv_full env a w = Some (finish_fetch env a [] w1)"
    by (rule fetch_ohlcv_full_rows [OF c assms(4)])
  moreover have "finish_fetch env a [] w1 = (Inr [], w1\<lparr>files := AList.update p [] (files w1)\<rparr>)"
    using assms(1,2,6)
    by (simp add: finish_fetch_def ohlcv_to_df_def drop_duplicates_def makedirs_def)
  moreover have "map_of (files (w1\<lparr>files := AList.update p [] (files w1)\<rparr>)) p = Some []"
    by (simp add: update_conv')
  moreover have "\<forall>v. map_of (files v) p = Some [] \<longrightarrow> fetch_ohlcv_full env a v = Some (Inr [], v)"
    using assms(1,6,7)
    by (simp add: fetch_ohlcv_full_def cached_def load_cache_def drop_duplicates_def)
  ultimately show ?thesis by simp
qed

text \<open>
  Claim C10 at a cache path without a directory part. \<^verbatim>\<open>os.path.dirname\<close> of such a path
  is the empty string and \<^verbatim>\<open>os.makedirs\<close> raises for it: the first page is asked for, and
  then the call ends with \<^verbatim>\<open>FileNotFoundError\<close>; no frame is returned and no file is
  written, so that the next call asks the adapter again.
\<close>

theorem fetch_ohlcv_full_bare_cache_path:
  "fetch_ohlcv_full stub_env (hourly_args (Some ''btc_usdt_1h.csv'')) (stub_world [] [])
     = Some (Inl FileNotFoundError,
             \<lparr>outside = \<lparr>script = [], clock = 1700000000000000\<rparr>, files = [],
              requests = [t0]\<rparr>)"
  by code_simp

end
